theory Spec2Isabelle
  imports Complex_Main
begin

section \<open>Numbers, indices and failures\<close>

text \<open>
  The C++ type \<open>Number\<close> is a double and \<open>Index\<close> an int. Numbers are idealised as
  reals; the three places where IEEE arithmetic or the C++ library leave the reals are
  results of their own: a division by zero, \<open>pow\<close> on a negative base with a
  non-integral exponent, and the undefined behaviour of \<open>std::list\<close> on an empty list
  (\<open>pop_front\<close>, dereferencing \<open>begin()\<close>) or of reading a variable never assigned.
  \<open>ASSERT_EXCEPTION\<close> throws \<open>OPTION_OUT_OF_RANGE\<close>; the message is kept as the name
  of the option it quotes. \<open>DBG_ASSERT\<close> is compiled out of a release build and has no
  counterpart here. Vector dimensions are non-negative and are naturals; their sums are
  taken to stay inside the range of \<open>Index\<close>.
\<close>

type_synonym Number = real
type_synonym Index = int

datatype error =
    OPTION_OUT_OF_RANGE string
  | DivisionByZero
  | PowDomainError
  | PopFrontOnEmptyList
  | DereferenceOfEnd
  | UninitializedRead

fun bindE :: "error + 'a \<Rightarrow> ('a \<Rightarrow> error + 'b) \<Rightarrow> error + 'b" where
  "bindE (Inl e) f = Inl e"
| "bindE (Inr x) f = f x"

text \<open>Division of doubles; \<open>a /= (Number)n\<close> divides by \<open>real n\<close>.\<close>

definition Number_div :: "Number \<Rightarrow> Number \<Rightarrow> error + Number" where
  "Number_div a b = (if b = 0 then Inl DivisionByZero else Inr (a / b))"

text \<open>
  \<open>pow(x, y)\<close>. The exponent is \<open>theta_mu_\<close>, which lies strictly between 1 and 2, so a
  negative base is always a domain error.
\<close>

definition Number_pow :: "Number \<Rightarrow> Number \<Rightarrow> error + Number" where
  "Number_pow x y = (if x < 0 then Inl PowDomainError else Inr (x powr y))"

section \<open>The filter\<close>

text \<open>
  The class \<open>Filter\<close> (\<open>IpFilter.hpp\<close>) is not among the sources; the three definitions
  below follow the specification. An entry is (objective value, constraint violation,
  iteration index).
\<close>

type_synonym FilterEntry = "Number \<times> Number \<times> Index"
type_synonym Filter = "FilterEntry list"

text \<open>
  Modelled from the spec: the dominance test of \<open>Filter\<close>, which is not in the sources.
  An entry \<open>(f', \<theta>')\<close> dominates a candidate \<open>(f, \<theta>)\<close> when \<open>f \<ge> f'\<close> and \<open>\<theta> \<ge> \<theta>'\<close>.
\<close>

definition dominates :: "FilterEntry \<Rightarrow> Number \<Rightarrow> Number \<Rightarrow> bool" where
  "dominates e f theta = (fst e \<le> f \<and> fst (snd e) \<le> theta)"

text \<open>
  Modelled from the spec: \<open>Filter::Acceptable\<close>, which is not in the sources. A
  candidate is acceptable iff no entry dominates it.
\<close>

definition Filter_Acceptable :: "Filter \<Rightarrow> Number \<Rightarrow> Number \<Rightarrow> bool" where
  "Filter_Acceptable flt f theta = (\<not> list_ex (\<lambda>e. dominates e f theta) flt)"

text \<open>
  Modelled from the spec: \<open>Filter::AddEntry\<close>, which is not in the sources. Inserting
  an entry removes the entries it dominates.
\<close>

definition Filter_AddEntry :: "Filter \<Rightarrow> Number \<Rightarrow> Number \<Rightarrow> Index \<Rightarrow> Filter" where
  "Filter_AddEntry flt f theta iteration =
     filter (\<lambda>e. \<not> dominates (f, theta, iteration) (fst e) (fst (snd e))) flt
       @ [(f, theta, iteration)]"

section \<open>Data\<close>

text \<open>
  What one call reads from its collaborators: the dimensions of the current vectors
  (\<open>IpData().curr_x()->Dim()\<close>, ...), the quantities of \<open>IpCq()\<close> (the infeasibilities
  and the complementarity in the 1-norm), \<open>IpData().epsilon_tol()\<close> and
  \<open>iter_count()\<close>, and what the oracles' \<open>CalculateMu()\<close> return. The fixed-mode oracle
  may be absent (\<open>IsValid(fix_mu_oracle_)\<close> is false): \<open>None\<close>.
\<close>

record iterate =
  dim_x :: nat
  dim_s :: nat
  dim_y_c :: nat
  dim_y_d :: nat
  dim_z_L :: nat
  dim_z_U :: nat
  dim_v_L :: nat
  dim_v_U :: nat
  curr_dual_infeasibility :: Number
  curr_primal_infeasibility :: Number
  curr_complementarity :: Number
  curr_f :: Number
  curr_constraint_violation :: Number
  curr_avrg_compl :: Number
  curr_barrier_error :: Number
  epsilon_tol :: Number
  iter_count :: Index
  free_mu_oracle_CalculateMu :: Number
  fix_mu_oracle_CalculateMu :: "Number option"

text \<open>
  The mutable state: the members of \<open>NonmonotoneMuUpdate\<close> (named as in the class, without the
  trailing underscore; \<open>filter_\<close> is \<open>filter_m\<close>), the fields of the shared \<open>IpData()\<close> this class writes
  (\<open>curr_mu\<close>, \<open>curr_tau\<close>, \<open>FreeMuMode\<close>, \<open>info_string\<close>), and the number of times
  \<open>linesearch_->Reset()\<close> has been called.
\<close>

record state =
  mu_max :: Number
  mu_min :: Number
  tau_min :: Number
  tau_max :: Number
  mu_safeguard_exp :: Number
  mu_safeguard_factor :: Number
  refs_red_fact :: Number
  num_refs_max :: Index
  mu_never_fix :: bool
  adaptive_globalization :: Index
  kappa_epsilon :: Number
  kappa_mu :: Number
  theta_mu :: Number
  init_dual_inf :: Number
  init_primal_inf :: Number
  refs_vals :: "Number list"
  check_if_no_bounds :: bool
  no_bounds :: bool
  filter_m :: Filter
  curr_mu :: Number
  curr_tau :: Number
  FreeMuMode :: bool
  info_string :: string
  linesearch_resets :: nat

text \<open>
  \<open>OptionsList\<close>: \<open>GetNumericValue\<close> and \<open>GetIntegerValue\<close> return whether the option
  was supplied and, if so, its value.
\<close>

record OptionsList =
  GetNumericValue :: "string \<Rightarrow> Number option"
  GetIntegerValue :: "string \<Rightarrow> Index option"

section \<open>Initialization\<close>

text \<open>
  The pattern every checked numeric option follows: if supplied, the value must pass
  the range test of its \<open>ASSERT_EXCEPTION\<close>, else the default is taken.
\<close>

definition numeric_option ::
  "OptionsList \<Rightarrow> string \<Rightarrow> (Number \<Rightarrow> bool) \<Rightarrow> Number \<Rightarrow> error + Number" where
  "numeric_option options name in_range dflt =
     (case GetNumericValue options name of
        Some v \<Rightarrow> if in_range v then Inr v else Inl (OPTION_OUT_OF_RANGE name)
      | None \<Rightarrow> Inr dflt)"

text \<open>
  \<open>InitializeImpl\<close>. Beyond the options it reads \<open>IpData().epsilon_tol()\<close> and the
  results of the oracles' \<open>Initialize\<close> (\<open>None\<close> for an absent fixed-mode oracle). It
  returns the exception thrown, or the boolean returned with the object as left.
\<close>

definition InitializeImpl ::
  "OptionsList \<Rightarrow> Number \<Rightarrow> bool \<Rightarrow> bool option \<Rightarrow> state \<Rightarrow> error + (bool \<times> state)" where
  "InitializeImpl options eps_tol free_init fix_init s =
     bindE (numeric_option options ''mu_max'' (\<lambda>v. v > 0) (10 ^ 10)) (\<lambda>v_mu_max.
     bindE (numeric_option options ''mu_min'' (\<lambda>v. v > 0 \<and> v < v_mu_max) (0.1 * eps_tol)) (\<lambda>v_mu_min.
     bindE (numeric_option options ''tau_min'' (\<lambda>v. v > 0 \<and> v < 1) (99 / 100)) (\<lambda>v_tau_min.
     bindE (numeric_option options ''tau_max'' (\<lambda>v. v > 0 \<and> v \<le> 1) v_tau_min) (\<lambda>v_tau_max.
     bindE (numeric_option options ''mu_safeguard_exp'' (\<lambda>v. v \<ge> 0) 0) (\<lambda>v_mu_safeguard_exp.
     bindE (numeric_option options ''mu_safeguard_factor'' (\<lambda>v. v \<ge> 0) 0) (\<lambda>v_mu_safeguard_factor.
     bindE (numeric_option options ''nonmonotone_mu_refs_redfact'' (\<lambda>v. v > 0 \<and> v < 1)
              (9999 / 10000)) (\<lambda>v_refs_red_fact.
     bindE (case GetIntegerValue options ''nonmonotone_mu_max_refs'' of
              Some ivalue \<Rightarrow>
                if ivalue \<ge> 0 then Inr ivalue
                else Inl (OPTION_OUT_OF_RANGE ''nonmonotone_mu_max_refs'')
            | None \<Rightarrow> Inr 4) (\<lambda>v_num_refs_max.
     let v_mu_never_fix =
           (case GetIntegerValue options ''mu_never_fix'' of
              Some ivalue \<Rightarrow> ivalue \<noteq> 0 | None \<Rightarrow> False);
         v_adaptive_globalization =
           (case GetIntegerValue options ''adaptive_globalization'' of
              Some ivalue \<Rightarrow> ivalue | None \<Rightarrow> 1);
         s1 = s\<lparr>mu_max := v_mu_max, mu_min := v_mu_min, tau_min := v_tau_min,
                tau_max := v_tau_max, mu_safeguard_exp := v_mu_safeguard_exp,
                mu_safeguard_factor := v_mu_safeguard_factor,
                refs_red_fact := v_refs_red_fact, num_refs_max := v_num_refs_max,
                mu_never_fix := v_mu_never_fix,
                adaptive_globalization := v_adaptive_globalization\<rparr>
     in if \<not> free_init then Inr (False, s1)
        else if fix_init = Some False then Inr (False, s1)
        else
     bindE (numeric_option options ''kappa_epsilon'' (\<lambda>v. v > 0) 10) (\<lambda>v_kappa_epsilon.
     bindE (numeric_option options ''kappa_mu'' (\<lambda>v. v > 0 \<and> v < 1) (2 / 10)) (\<lambda>v_kappa_mu.
     bindE (numeric_option options ''theta_mu'' (\<lambda>v. v > 1 \<and> v < 2) (15 / 10)) (\<lambda>v_theta_mu.
     Inr (True,
          s1\<lparr>kappa_epsilon := v_kappa_epsilon, kappa_mu := v_kappa_mu, theta_mu := v_theta_mu,
             init_dual_inf := - 1, init_primal_inf := - 1,
             refs_vals := [], check_if_no_bounds := False, no_bounds := False,
             FreeMuMode := True\<rparr>))))))))))))"

section \<open>The operations\<close>

definition Compute_tau :: "state \<Rightarrow> Number \<Rightarrow> Number" where
  "Compute_tau s mu = max (tau_min s) (min (1 - mu) (tau_max s))"

text \<open>The loops of \<open>min_ref_val\<close> and \<open>max_ref_val\<close> over the rest of the list.\<close>

fun min_ref_loop :: "Number \<Rightarrow> Number list \<Rightarrow> Number" where
  "min_ref_loop min_ref [] = min_ref"
| "min_ref_loop min_ref (r # rs) = min_ref_loop (min min_ref r) rs"

fun max_ref_loop :: "Number \<Rightarrow> Number list \<Rightarrow> Number" where
  "max_ref_loop max_ref [] = max_ref"
| "max_ref_loop max_ref (r # rs) = max_ref_loop (max max_ref r) rs"

definition min_ref_val :: "state \<Rightarrow> error + Number" where
  "min_ref_val s =
     (case refs_vals s of [] \<Rightarrow> Inl DereferenceOfEnd | r # rs \<Rightarrow> Inr (min_ref_loop r rs))"

definition max_ref_val :: "state \<Rightarrow> error + Number" where
  "max_ref_val s =
     (case refs_vals s of [] \<Rightarrow> Inl DereferenceOfEnd | r # rs \<Rightarrow> Inr (max_ref_loop r rs))"

definition curr_norm_pd_system :: "iterate \<Rightarrow> error + Number" where
  "curr_norm_pd_system it =
     (let dual_inf = curr_dual_infeasibility it;
          primal_inf = curr_primal_infeasibility it;
          complty = curr_complementarity it;
          n_dual = dim_x it + dim_s it
      in bindE (Number_div dual_inf (real n_dual)) (\<lambda>dual_inf.
         let n_pri = dim_y_c it + dim_y_d it
         in bindE (if n_pri > 0 then Number_div primal_inf (real n_pri) else Inr primal_inf)
              (\<lambda>primal_inf.
         let n_comp = dim_z_L it + dim_z_U it + dim_v_L it + dim_v_U it
         in bindE (if n_comp > 0 then Number_div complty (real n_comp) else Inr complty)
              (\<lambda>complty.
         Inr (primal_inf + dual_inf + complty)))))"

definition lower_mu_safeguard :: "iterate \<Rightarrow> state \<Rightarrow> error + (Number \<times> state)" where
  "lower_mu_safeguard it s =
     (let dual_inf = curr_dual_infeasibility it;
          primal_inf = curr_primal_infeasibility it;
          n_dual = dim_x it + dim_s it
      in bindE (Number_div dual_inf (real n_dual)) (\<lambda>dual_inf.
         let n_pri = dim_y_c it + dim_y_d it
         in bindE (if n_pri > 0 then Number_div primal_inf (real n_pri) else Inr primal_inf)
              (\<lambda>primal_inf.
         let s1 = (if init_dual_inf s < 0
                   then s\<lparr>init_dual_inf := max 1 dual_inf\<rparr> else s);
             s2 = (if init_primal_inf s1 < 0
                   then s1\<lparr>init_primal_inf := max 1 primal_inf\<rparr> else s1)
         in bindE (Number_div dual_inf (init_dual_inf s2)) (\<lambda>dual_ratio.
            bindE (Number_div primal_inf (init_primal_inf s2)) (\<lambda>primal_ratio.
            let safeguard =
                  max (mu_safeguard_factor s2 * dual_ratio)
                      (mu_safeguard_factor s2 * primal_ratio)
            in if adaptive_globalization s2 = 1
               then bindE (min_ref_val s2) (\<lambda>min_ref. Inr (min safeguard min_ref, s2))
               else Inr (safeguard, s2))))))"

text \<open>
  The loop of \<open>CheckSufficientProgress\<close> over the reference values: \<open>retval\<close> starts
  false and is set as soon as one reference passes.
\<close>

fun refs_loop :: "Number \<Rightarrow> Number \<Rightarrow> Number list \<Rightarrow> bool \<Rightarrow> bool" where
  "refs_loop curr_error red_fact [] retval = retval"
| "refs_loop curr_error red_fact (r # rs) retval =
     refs_loop curr_error red_fact rs (if curr_error \<le> red_fact * r then True else retval)"

definition CheckSufficientProgress :: "iterate \<Rightarrow> state \<Rightarrow> error + bool" where
  "CheckSufficientProgress it s =
     (if mu_never_fix s then Inr True
      else if adaptive_globalization s = 1 then
        (let num_refs = int (length (refs_vals s))
         in if num_refs \<ge> num_refs_max s
            then bindE (curr_norm_pd_system it) (\<lambda>curr_error.
                   Inr (refs_loop curr_error (refs_red_fact s) (refs_vals s) False))
            else Inr True)
      else if adaptive_globalization s = 2 then
        Inr (Filter_Acceptable (filter_m s) (curr_f it) (curr_constraint_violation it))
      else Inr True)"

text \<open>\<open>refs_vals_.pop_front()\<close>: undefined on an empty list.\<close>

definition pop_front :: "Number list \<Rightarrow> error + Number list" where
  "pop_front xs = (case xs of [] \<Rightarrow> Inl PopFrontOnEmptyList | x # rest \<Rightarrow> Inr rest)"

definition RememberCurrentPointAsAccepted :: "iterate \<Rightarrow> state \<Rightarrow> error + state" where
  "RememberCurrentPointAsAccepted it s =
     (if adaptive_globalization s = 1 then
        bindE (curr_norm_pd_system it) (\<lambda>curr_error.
        let num_refs = int (length (refs_vals s))
        in bindE (if num_refs \<ge> num_refs_max s then pop_front (refs_vals s)
                  else Inr (refs_vals s)) (\<lambda>refs.
           Inr (s\<lparr>refs_vals := refs @ [curr_error]\<rparr>)))
      else if adaptive_globalization s = 2 then
        (let theta = curr_constraint_violation it;
             param = 1 / 10 ^ 5
         in Inr (s\<lparr>filter_m :=
                      Filter_AddEntry (filter_m s) (curr_f it - param * theta)
                        (curr_constraint_violation it - param * theta) (iter_count it)\<rparr>))
      else Inr s)"

text \<open>
  \<open>NewFixedMu\<close>. With a selector other than 1 and 2 the local \<open>max_ref\<close> is never
  assigned, and line 448 reads it.
\<close>

definition NewFixedMu :: "iterate \<Rightarrow> state \<Rightarrow> error + (Number \<times> state)" where
  "NewFixedMu it s =
     bindE (if adaptive_globalization s = 1 then bindE (max_ref_val s) (\<lambda>m. Inr (Some m))
            else if adaptive_globalization s = 2 then Inr (Some (10 ^ 20))
            else Inr None) (\<lambda>max_ref.
     let new_mu = (case fix_mu_oracle_CalculateMu it of
                     Some m \<Rightarrow> m
                   | None \<Rightarrow> curr_avrg_compl it)
     in bindE (lower_mu_safeguard it s) (\<lambda>(safeguard, s1).
        let new_mu = max new_mu safeguard
        in bindE (case max_ref of None \<Rightarrow> Inl UninitializedRead | Some m \<Rightarrow> Inr m)
             (\<lambda>max_ref.
        let new_mu = min new_mu (0.1 * max_ref);
            new_mu = max new_mu (mu_min s1);
            new_mu = min new_mu (mu_max s1)
        in Inr (new_mu, s1))))"

text \<open>
  \<open>UpdateBarrierParameter\<close>, in the three parts of its body: the no-bounds check of
  lines 193 to 207, the mode transition of lines 209 to 265, and the computation in the
  free mode of lines 267 to 307.
\<close>

definition check_no_bounds :: "iterate \<Rightarrow> state \<Rightarrow> state" where
  "check_no_bounds it s =
     (if \<not> check_if_no_bounds s then
        (let n_bounds = dim_z_L it + dim_z_U it + dim_v_L it + dim_v_U it;
             s1 = (if n_bounds = 0
                   then s\<lparr>no_bounds := True, curr_mu := mu_min s, curr_tau := tau_min s\<rparr>
                   else s)
         in s1\<lparr>check_if_no_bounds := True\<rparr>)
      else s)"

definition mode_transition :: "iterate \<Rightarrow> state \<Rightarrow> error + state" where
  "mode_transition it s =
     (if \<not> FreeMuMode s then
        bindE (CheckSufficientProgress it s) (\<lambda>sufficient_progress.
        if sufficient_progress then
          RememberCurrentPointAsAccepted it (s\<lparr>FreeMuMode := True\<rparr>)
        else
          (let sub_problem_error = curr_barrier_error it;
               mu = curr_mu s
           in if sub_problem_error \<le> kappa_epsilon s * mu then
                (let eps_tol = epsilon_tol it
                 in bindE (Number_pow mu (theta_mu s)) (\<lambda>mu_pow.
                    let new_mu = min (kappa_mu s * mu) mu_pow;
                        new_mu = max new_mu (eps_tol / 10);
                        new_tau = Compute_tau s mu
                    in Inr (s\<lparr>curr_mu := new_mu, curr_tau := new_tau,
                              linesearch_resets := Suc (linesearch_resets s)\<rparr>)))
              else Inr s))
      else
        bindE (CheckSufficientProgress it s) (\<lambda>sufficient_progress.
        if sufficient_progress then RememberCurrentPointAsAccepted it s
        else
          bindE (NewFixedMu it (s\<lparr>FreeMuMode := False\<rparr>)) (\<lambda>(mu, s1).
          let tau = Compute_tau s1 mu
          in Inr (s1\<lparr>curr_mu := mu, curr_tau := tau,
                     linesearch_resets := Suc (linesearch_resets s1)\<rparr>))))"

definition free_mu_computation :: "iterate \<Rightarrow> state \<Rightarrow> error + state" where
  "free_mu_computation it s =
     (if FreeMuMode s then
        (let mu = free_mu_oracle_CalculateMu it;
             mu = max mu (mu_min s)
         in bindE (lower_mu_safeguard it s) (\<lambda>(mu_lower_safe, s1).
            let raised = (mu < mu_lower_safe);
                mu = (if raised then mu_lower_safe else mu);
                s2 = (if raised then s1\<lparr>info_string := info_string s1 @ ''m''\<rparr> else s1);
                mu = min mu (mu_max s2);
                tau = Compute_tau s2 mu
            in Inr (s2\<lparr>curr_mu := mu, curr_tau := tau,
                       linesearch_resets := Suc (linesearch_resets s2)\<rparr>)))
      else Inr (s\<lparr>info_string := info_string s @ ''F''\<rparr>))"

definition UpdateBarrierParameter :: "iterate \<Rightarrow> state \<Rightarrow> error + state" where
  "UpdateBarrierParameter it s =
     (let s1 = check_no_bounds it s
      in if no_bounds s1 then Inr s1
         else bindE (mode_transition it s1) (\<lambda>s2. free_mu_computation it s2))"

text \<open>A sequence of calls, one per outer iteration, each with its own readings.\<close>

fun UpdateBarrierParameter_calls :: "iterate list \<Rightarrow> state \<Rightarrow> error + state" where
  "UpdateBarrierParameter_calls [] s = Inr s"
| "UpdateBarrierParameter_calls (it # its) s =
     bindE (UpdateBarrierParameter it s) (UpdateBarrierParameter_calls its)"

section \<open>Derived quantities\<close>

text \<open>
  Names for quantities the operations compute on the way: the number of bound
  multipliers, the averaged infeasibilities of \<open>curr_norm_pd_system\<close> and
  \<open>lower_mu_safeguard\<close>, the baselines that lines 510 to 515 leave, and the value that
  the shrink step of the fixed mode commits (lines 233 and 234).
\<close>

definition n_bounds :: "iterate \<Rightarrow> nat" where
  "n_bounds it = dim_z_L it + dim_z_U it + dim_v_L it + dim_v_U it"

definition averaged_dual_inf :: "iterate \<Rightarrow> Number" where
  "averaged_dual_inf it = curr_dual_infeasibility it / real (dim_x it + dim_s it)"

definition averaged_primal_inf :: "iterate \<Rightarrow> Number" where
  "averaged_primal_inf it =
     (if dim_y_c it + dim_y_d it > 0
      then curr_primal_infeasibility it / real (dim_y_c it + dim_y_d it)
      else curr_primal_infeasibility it)"

definition averaged_complementarity :: "iterate \<Rightarrow> Number" where
  "averaged_complementarity it =
     (if n_bounds it > 0 then curr_complementarity it / real (n_bounds it)
      else curr_complementarity it)"

definition latched_dual_inf :: "iterate \<Rightarrow> state \<Rightarrow> Number" where
  "latched_dual_inf it s =
     (if init_dual_inf s < 0 then max 1 (averaged_dual_inf it) else init_dual_inf s)"

definition latched_primal_inf :: "iterate \<Rightarrow> state \<Rightarrow> Number" where
  "latched_primal_inf it s =
     (if init_primal_inf s < 0 then max 1 (averaged_primal_inf it) else init_primal_inf s)"

definition shrunk_mu :: "iterate \<Rightarrow> state \<Rightarrow> Number" where
  "shrunk_mu it s =
     max (min (kappa_mu s * curr_mu s) (curr_mu s powr theta_mu s)) (epsilon_tol it / 10)"

section \<open>Concrete configurations and iterates\<close>

text \<open>
  An object before its initialization, options given as lists, and the object
  \<open>InitializeImpl\<close> leaves when both oracles initialize and the tolerance is \<open>1e-8\<close>.
\<close>

definition fresh_object :: state where
  "fresh_object =
     \<lparr>mu_max = 0, mu_min = 0, tau_min = 0, tau_max = 0, mu_safeguard_exp = 0,
      mu_safeguard_factor = 0, refs_red_fact = 0, num_refs_max = 0, mu_never_fix = False,
      adaptive_globalization = 0, kappa_epsilon = 0, kappa_mu = 0, theta_mu = 0,
      init_dual_inf = 0, init_primal_inf = 0, refs_vals = [], check_if_no_bounds = False,
      no_bounds = False, filter_m = [], curr_mu = 0, curr_tau = 0, FreeMuMode = False,
      info_string = [], linesearch_resets = 0\<rparr>"

definition options_of :: "(string \<times> Number) list \<Rightarrow> (string \<times> Index) list \<Rightarrow> OptionsList" where
  "options_of nums ints = \<lparr>GetNumericValue = map_of nums, GetIntegerValue = map_of ints\<rparr>"

definition initialized :: "OptionsList \<Rightarrow> state" where
  "initialized options =
     (case InitializeImpl options (1 / 10 ^ 8) True None fresh_object of
        Inr (True, s) \<Rightarrow> s | _ \<Rightarrow> fresh_object)"

text \<open>
  An iterate of a problem with one variable and one bound, no constraints, whose scaled
  residual norm is the dual infeasibility given; the free-mode oracle proposes 0.05 and
  there is no fixed-mode oracle.
\<close>

definition an_iterate :: "Number \<Rightarrow> iterate" where
  "an_iterate dual_inf =
     \<lparr>dim_x = 1, dim_s = 0, dim_y_c = 0, dim_y_d = 0, dim_z_L = 1, dim_z_U = 0,
      dim_v_L = 0, dim_v_U = 0, curr_dual_infeasibility = dual_inf,
      curr_primal_infeasibility = 0, curr_complementarity = 0, curr_f = 0,
      curr_constraint_violation = 0, curr_avrg_compl = 1, curr_barrier_error = 0,
      epsilon_tol = 1 / 10 ^ 8, iter_count = 0, free_mu_oracle_CalculateMu = 1 / 20,
      fix_mu_oracle_CalculateMu = None\<rparr>"

text \<open>
  The example of the specification: at most two references, the history 0.50, 0.40 and
  a reduction factor of 0.9.
\<close>

definition history_state :: state where
  "history_state =
     (initialized (options_of [(''nonmonotone_mu_refs_redfact'', 9 / 10)]
                              [(''nonmonotone_mu_max_refs'', 2)]))
       \<lparr>refs_vals := [1 / 2, 2 / 5]\<rparr>"

text \<open>
  Configurations used below: the defaults; the example of the specification
  (\<open>mu_min = 1e-9\<close>, \<open>mu_max = 100\<close>, \<open>tau_min = tau_max = 0.9\<close>); one with
  \<open>tau_max = 1\<close> above the default \<open>tau_min\<close>; one with \<open>tau_min = 0.5\<close>,
  \<open>tau_max = 0.99\<close> and a single reference; one with \<open>mu_min = 0.5\<close>, \<open>mu_max = 10\<close>
  and a single reference; one with \<open>mu_min = 0.01\<close> and a single reference, at its
  start and after a first call that stored the reference 0.001; and one that selects
  the filter and has a safeguard factor of 1.
\<close>

definition default_state :: state where
  "default_state = initialized (options_of [] [])"

definition spec_example_state :: state where
  "spec_example_state =
     initialized (options_of [(''mu_min'', 1 / 10 ^ 9), (''mu_max'', 100),
                              (''tau_min'', 9 / 10), (''tau_max'', 9 / 10)] [])"

definition wide_tau_state :: state where
  "wide_tau_state = initialized (options_of [(''tau_max'', 1)] [])"

definition two_sided_tau_state :: state where
  "two_sided_tau_state =
     initialized (options_of [(''tau_min'', 1 / 2), (''tau_max'', 99 / 100)]
                             [(''nonmonotone_mu_max_refs'', 1)])"

definition raised_mu_min_state :: state where
  "raised_mu_min_state =
     initialized (options_of [(''mu_min'', 1 / 2), (''mu_max'', 10)]
                             [(''nonmonotone_mu_max_refs'', 1)])"

definition small_reference_start :: state where
  "small_reference_start =
     initialized (options_of [(''mu_min'', 1 / 100)] [(''nonmonotone_mu_max_refs'', 1)])"

definition small_reference_state :: state where
  "small_reference_state =
     small_reference_start
       \<lparr>init_dual_inf := 1, init_primal_inf := 1, refs_vals := [1 / 1000],
        check_if_no_bounds := True, curr_mu := 1 / 20, curr_tau := 99 / 100,
        linesearch_resets := 1\<rparr>"

text \<open>
  A configuration with \<open>mu_min = 1e-10\<close>, supplied below \<open>epsilon_tol / 10 = 1e-9\<close>, and
  a single reference: at its start, and in the fixed mode with \<open>mu = 1\<close>, where two
  calls leave it.
\<close>

definition lowered_mu_min_state :: state where
  "lowered_mu_min_state =
     initialized (options_of [(''mu_min'', 1 / 10 ^ 10)] [(''nonmonotone_mu_max_refs'', 1)])"

definition lowered_mu_min_fixed_state :: state where
  "lowered_mu_min_fixed_state =
     lowered_mu_min_state
       \<lparr>init_dual_inf := 10, init_primal_inf := 1, refs_vals := [10],
        check_if_no_bounds := True, curr_mu := 1, curr_tau := 99 / 100,
        FreeMuMode := False, info_string := ''F'', linesearch_resets := 2\<rparr>"

definition safeguarded_filter_state :: state where
  "safeguarded_filter_state =
     initialized (options_of [(''mu_safeguard_factor'', 1)]
                             [(''adaptive_globalization'', 2)])"

text \<open>
  Iterates of a problem without bounds, and of one without variables (hence without
  bounds, since the bound multipliers belong to variables and slacks).
\<close>

definition unbounded_iterate :: iterate where
  "unbounded_iterate = (an_iterate 0)\<lparr>dim_z_L := 0\<rparr>"

definition no_variables_iterate :: iterate where
  "no_variables_iterate = (an_iterate 0)\<lparr>dim_x := 0, dim_z_L := 0\<rparr>"

section \<open>The order of the clamps as the specification states it\<close>

text \<open>
  Section 4.4 of the specification, read literally: the raw proposal is clamped below
  by the safeguard and by \<open>mu_min\<close>, then above by the cap and by \<open>mu_max\<close>.
\<close>

definition NewFixedMu_in_stated_order ::
  "Number \<Rightarrow> Number \<Rightarrow> Number \<Rightarrow> Number \<Rightarrow> Number \<Rightarrow> Number" where
  "NewFixedMu_in_stated_order raw safeguard cap lo hi =
     min (min (max (max raw safeguard) lo) cap) hi"

section \<open>Sequences of accepted points\<close>

text \<open>
  \<open>RememberCurrentPointAsAccepted\<close> called once per iterate of a list, and the last
  \<open>n\<close> elements of a list.
\<close>

fun RememberCurrentPointAsAccepted_calls :: "iterate list \<Rightarrow> state \<Rightarrow> error + state" where
  "RememberCurrentPointAsAccepted_calls [] s = Inr s"
| "RememberCurrentPointAsAccepted_calls (it # its) s =
     bindE (RememberCurrentPointAsAccepted it s) (RememberCurrentPointAsAccepted_calls its)"

definition last_n :: "nat \<Rightarrow> 'a list \<Rightarrow> 'a list" where
  "last_n n xs = drop (length xs - n) xs"

section \<open>Results of the operations\<close>

text \<open>The equations that evaluate the concrete configurations and iterates.\<close>

lemmas eval_init =
  initialized_def options_of_def InitializeImpl_def numeric_option_def fresh_object_def

lemmas eval_norm = curr_norm_pd_system_def Number_div_def an_iterate_def Let_def

lemmas eval_update =
  UpdateBarrierParameter_def check_no_bounds_def mode_transition_def
  free_mu_computation_def CheckSufficientProgress_def RememberCurrentPointAsAccepted_def
  NewFixedMu_def lower_mu_safeguard_def min_ref_val_def max_ref_val_def pop_front_def
  Compute_tau_def Number_pow_def

lemma default_state_eq:
  "default_state =
     \<lparr>mu_max = 10 ^ 10, mu_min = 1 / 10 ^ 9, tau_min = 99 / 100, tau_max = 99 / 100,
      mu_safeguard_exp = 0, mu_safeguard_factor = 0, refs_red_fact = 9999 / 10000,
      num_refs_max = 4, mu_never_fix = False, adaptive_globalization = 1,
      kappa_epsilon = 10, kappa_mu = 2 / 10, theta_mu = 15 / 10, init_dual_inf = - 1,
      init_primal_inf = - 1, refs_vals = [], check_if_no_bounds = False,
      no_bounds = False, filter_m = [], curr_mu = 0, curr_tau = 0, FreeMuMode = True,
      info_string = [], linesearch_resets = 0\<rparr>"
  by (simp add: default_state_def eval_init)

text \<open>When a sequence of fallible steps returns, each step did.\<close>

lemma bindE_Inr_iff: "bindE m f = Inr y \<longleftrightarrow> (\<exists>x. m = Inr x \<and> f x = Inr y)"
  by (cases m) auto

lemma bindE_Inl_iff: "bindE m f = Inl e \<longleftrightarrow> (m = Inl e \<or> (\<exists>x. m = Inr x \<and> f x = Inl e))"
  by (cases m) auto

lemma refs_loop_iff:
  "refs_loop curr_error red_fact rs retval \<longleftrightarrow> retval \<or> (\<exists>r\<in>set rs. curr_error \<le> red_fact * r)"
  by (induction rs arbitrary: retval) auto

lemma Number_div_Inr_iff: "Number_div a b = Inr c \<longleftrightarrow> b \<noteq> 0 \<and> c = a / b"
  by (auto simp: Number_div_def)

text \<open>
  What each operation changes in the state when it returns: \<open>lower_mu_safeguard\<close> and
  \<open>NewFixedMu\<close> only the baselines, \<open>RememberCurrentPointAsAccepted\<close> only the
  reference history or the filter.
\<close>

lemma lower_mu_safeguard_state:
  assumes "lower_mu_safeguard it s = Inr (v, s')"
  shows "s' = s\<lparr>init_dual_inf := latched_dual_inf it s,
               init_primal_inf := latched_primal_inf it s\<rparr>"
proof -
  from assms obtain d p
    where d: "Number_div (curr_dual_infeasibility it) (real (dim_x it + dim_s it)) = Inr d"
      and p: "(if dim_y_c it + dim_y_d it > 0
               then Number_div (curr_primal_infeasibility it)
                      (real (dim_y_c it + dim_y_d it))
               else Inr (curr_primal_infeasibility it)) = Inr p"
    unfolding lower_mu_safeguard_def Let_def bindE_Inr_iff by blast
  have d': "d = averaged_dual_inf it"
    using d by (simp add: Number_div_Inr_iff averaged_dual_inf_def)
  have p': "p = averaged_primal_inf it"
    using p by (simp add: Number_div_Inr_iff averaged_primal_inf_def split: if_splits)
  show ?thesis
    using assms d p unfolding lower_mu_safeguard_def Let_def d' p'
    by (auto simp: bindE_Inr_iff latched_dual_inf_def latched_primal_inf_def split: if_splits)
qed

lemma Remember_shape:
  assumes "RememberCurrentPointAsAccepted it s = Inr s'"
  shows "\<exists>r f. s' = s\<lparr>refs_vals := r, filter_m := f\<rparr>"
proof -
  consider "adaptive_globalization s = 1" | "adaptive_globalization s \<noteq> 1" "adaptive_globalization s = 2"
    | "adaptive_globalization s \<noteq> 1" "adaptive_globalization s \<noteq> 2" by blast
  then show ?thesis
  proof cases
    case 1
    show ?thesis
    proof (cases "curr_norm_pd_system it")
      case (Inl e)
      with 1 assms show ?thesis by (simp add: RememberCurrentPointAsAccepted_def)
    next
      case (Inr curr_error)
      show ?thesis
      proof (cases "if int (length (refs_vals s)) \<ge> num_refs_max s then pop_front (refs_vals s) else Inr (refs_vals s)")
        case (Inl e)
        with 1 Inr assms show ?thesis by (simp add: RememberCurrentPointAsAccepted_def Let_def)
      next
        case (Inr refs)
        with 1 \<open>curr_norm_pd_system it = Inr curr_error\<close> assms
        have "s' = s\<lparr>refs_vals := refs @ [curr_error]\<rparr>"
          by (simp add: RememberCurrentPointAsAccepted_def Let_def)
        then have "s' = s\<lparr>refs_vals := refs @ [curr_error], filter_m := filter_m s\<rparr>" by simp
        then show ?thesis by blast
      qed
    qed
  next
    case 2
    with assms obtain f where "s' = s\<lparr>filter_m := f\<rparr>"
      by (auto simp: RememberCurrentPointAsAccepted_def Let_def)
    then have "s' = s\<lparr>refs_vals := refs_vals s, filter_m := f\<rparr>" by simp
    then show ?thesis by blast
  next
    case 3
    with assms have "s' = s" by (simp add: RememberCurrentPointAsAccepted_def)
    then have "s' = s\<lparr>refs_vals := refs_vals s, filter_m := filter_m s\<rparr>" by simp
    then show ?thesis by blast
  qed
qed

lemma lower_mu_safeguard_config:
  assumes "lower_mu_safeguard it s = Inr (v, s')"
  shows "mu_min s' = mu_min s" and "mu_max s' = mu_max s"
  using lower_mu_safeguard_state [OF assms] by simp_all

lemma NewFixedMu_Inr:
  assumes "NewFixedMu it s = Inr (v, s')"
  shows "\<exists>w x. lower_mu_safeguard it s = Inr (w, s') \<and> v = min (max x (mu_min s')) (mu_max s')"
proof (cases "if adaptive_globalization s = 1 then bindE (max_ref_val s) (\<lambda>m. Inr (Some m))
            else if adaptive_globalization s = 2 then Inr (Some (10 ^ 20))
            else Inr None")
  case (Inl e)
  with assms show ?thesis by (simp add: NewFixedMu_def)
next
  case mr: (Inr max_ref)
  show ?thesis
  proof (cases "lower_mu_safeguard it s")
    case (Inl e)
    with mr assms show ?thesis by (simp add: NewFixedMu_def Let_def)
  next
    case (Inr p)
    obtain w s1 where p: "p = (w, s1)" by (cases p)
    show ?thesis
    proof (cases max_ref)
      case None
      with mr Inr p assms show ?thesis by (simp add: NewFixedMu_def Let_def)
    next
      case (Some m)
      with mr Inr p assms show ?thesis by (simp add: NewFixedMu_def Let_def) blast
    qed
  qed
qed

lemma NewFixedMu_shape:
  assumes "NewFixedMu it s = Inr (v, s')"
  shows "s' = s\<lparr>init_dual_inf := latched_dual_inf it s,
               init_primal_inf := latched_primal_inf it s\<rparr>"
  using NewFixedMu_Inr [OF assms] lower_mu_safeguard_state by blast

lemma NewFixedMu_range:
  assumes "NewFixedMu it s = Inr (v, s')" and "mu_min s \<le> mu_max s"
  shows "mu_min s \<le> v \<and> v \<le> mu_max s"
proof -
  from NewFixedMu_Inr [OF assms(1)] obtain w x where s': "lower_mu_safeguard it s = Inr (w, s')"
    and v: "v = min (max x (mu_min s')) (mu_max s')" by blast
  from lower_mu_safeguard_config [OF s'] v assms(2) show ?thesis by auto
qed

text \<open>The two parts of \<open>UpdateBarrierParameter\<close>, by the mode they start in.\<close>

lemma free_mu_computation_Free:
  assumes "free_mu_computation it s = Inr s'" and "FreeMuMode s"
  shows "\<exists>i mu. s' = s\<lparr>init_dual_inf := latched_dual_inf it s, init_primal_inf := latched_primal_inf it s, info_string := i,
            curr_mu := mu, curr_tau := Compute_tau s mu,
            linesearch_resets := Suc (linesearch_resets s)\<rparr> \<and>
          (mu_min s \<le> mu_max s \<longrightarrow> mu_min s \<le> mu \<and> mu \<le> mu_max s)"
proof (cases "lower_mu_safeguard it s")
  case (Inl e)
  with assms show ?thesis by (simp add: free_mu_computation_def Let_def)
next
  case (Inr p)
  obtain w s1 where p: "p = (w, s1)" by (cases p)
  from lower_mu_safeguard_state Inr p
  have ab: "s1 = s\<lparr>init_dual_inf := latched_dual_inf it s,
                     init_primal_inf := latched_primal_inf it s\<rparr>" by blast
  define mu0 where "mu0 = max (free_mu_oracle_CalculateMu it) (mu_min s)"
  define mu where "mu = min (if mu0 < w then w else mu0) (mu_max s)"
  define i where "i = (if mu0 < w then info_string s @ ''m'' else info_string s)"
  have "s' = s\<lparr>init_dual_inf := latched_dual_inf it s, init_primal_inf := latched_primal_inf it s, info_string := i,
            curr_mu := mu, curr_tau := Compute_tau s mu,
            linesearch_resets := Suc (linesearch_resets s)\<rparr>"
  proof (cases "mu0 < w")
    case True
    with assms Inr p show ?thesis
      unfolding ab mu_def i_def mu0_def
      by (simp add: free_mu_computation_def Let_def Compute_tau_def del: max_less_iff_conj)
  next
    case False
    with assms Inr p show ?thesis
      unfolding ab mu_def i_def mu0_def
      by (simp add: free_mu_computation_def Let_def Compute_tau_def del: max_less_iff_conj)
  qed
  moreover have "mu_min s \<le> mu_max s \<longrightarrow> mu_min s \<le> mu \<and> mu \<le> mu_max s"
    unfolding mu_def mu0_def by auto
  ultimately show ?thesis by blast
qed

lemma free_mu_computation_Fixed:
  assumes "free_mu_computation it s = Inr s'" and "\<not> FreeMuMode s"
  shows "s' = s\<lparr>info_string := info_string s @ ''F''\<rparr>"
  using assms by (simp add: free_mu_computation_def)

lemma mode_transition_Fixed:
  assumes "mode_transition it s = Inr s'" and "\<not> FreeMuMode s"
  shows "(\<exists>r f. s' = s\<lparr>FreeMuMode := True, refs_vals := r, filter_m := f\<rparr>)
       \<or> s' = s
       \<or> s' = s\<lparr>curr_mu := shrunk_mu it s, curr_tau := Compute_tau s (curr_mu s),
                 linesearch_resets := Suc (linesearch_resets s)\<rparr>"
proof (cases "CheckSufficientProgress it s")
  case (Inl e)
  with assms show ?thesis by (simp add: mode_transition_def)
next
  case (Inr sufficient_progress)
  show ?thesis
  proof (cases sufficient_progress)
    case True
    with Inr assms have "RememberCurrentPointAsAccepted it (s\<lparr>FreeMuMode := True\<rparr>) = Inr s'"
      by (simp add: mode_transition_def)
    from Remember_shape [OF this] show ?thesis by simp
  next
    case False
    show ?thesis
    proof (cases "curr_barrier_error it \<le> kappa_epsilon s * curr_mu s")
      case no: False
      with False Inr assms have "s' = s" by (simp add: mode_transition_def Let_def)
      then show ?thesis by simp
    next
      case yes: True
      show ?thesis
      proof (cases "Number_pow (curr_mu s) (theta_mu s)")
        case (Inl e)
        with yes False Inr assms show ?thesis by (simp add: mode_transition_def Let_def)
      next
        case pw: (Inr mu_pow)
        then have "mu_pow = curr_mu s powr theta_mu s"
          by (simp add: Number_pow_def split: if_splits)
        with pw yes False Inr assms show ?thesis
          by (simp add: mode_transition_def Let_def shrunk_mu_def)
      qed
    qed
  qed
qed

lemma mode_transition_Free:
  assumes "mode_transition it s = Inr s'" and "FreeMuMode s"
  shows "(\<exists>r f. s' = s\<lparr>refs_vals := r, filter_m := f\<rparr>)
       \<or> (\<exists>mu. s' = s\<lparr>FreeMuMode := False, init_dual_inf := latched_dual_inf it s, init_primal_inf := latched_primal_inf it s,
                          curr_mu := mu, curr_tau := Compute_tau s mu,
                          linesearch_resets := Suc (linesearch_resets s)\<rparr> \<and>
                     (mu_min s \<le> mu_max s \<longrightarrow> mu_min s \<le> mu \<and> mu \<le> mu_max s))"
proof (cases "CheckSufficientProgress it s")
  case (Inl e)
  with assms show ?thesis by (simp add: mode_transition_def)
next
  case (Inr sufficient_progress)
  show ?thesis
  proof (cases sufficient_progress)
    case True
    with Inr assms have "RememberCurrentPointAsAccepted it s = Inr s'"
      by (simp add: mode_transition_def)
    from Remember_shape [OF this] show ?thesis by simp
  next
    case False
    show ?thesis
    proof (cases "NewFixedMu it (s\<lparr>FreeMuMode := False\<rparr>)")
      case (Inl e)
      with False Inr assms show ?thesis by (simp add: mode_transition_def)
    next
      case nf: (Inr p)
      obtain mu s1 where p: "p = (mu, s1)" by (cases p)
      from NewFixedMu_shape [of it "s\<lparr>FreeMuMode := False\<rparr>" mu s1] nf p
      have s1: "s1 = s\<lparr>FreeMuMode := False, init_dual_inf := latched_dual_inf it s,
                         init_primal_inf := latched_primal_inf it s\<rparr>"
        by (simp add: latched_dual_inf_def latched_primal_inf_def)
      from NewFixedMu_range [of it "s\<lparr>FreeMuMode := False\<rparr>" mu s1] nf p
      have range: "mu_min s \<le> mu_max s \<longrightarrow> mu_min s \<le> mu \<and> mu \<le> mu_max s" by simp
      from nf p False Inr assms
      have "s' = s1\<lparr>curr_mu := mu, curr_tau := Compute_tau s1 mu,
                     linesearch_resets := Suc (linesearch_resets s1)\<rparr>"
        by (simp add: mode_transition_def Let_def)
      then have "s' = s\<lparr>FreeMuMode := False, init_dual_inf := latched_dual_inf it s, init_primal_inf := latched_primal_inf it s,
                          curr_mu := mu, curr_tau := Compute_tau s mu,
                          linesearch_resets := Suc (linesearch_resets s)\<rparr>"
        unfolding s1 by (simp add: Compute_tau_def)
      with range show ?thesis by blast
    qed
  qed
qed

text \<open>
  The six ways a call of \<open>UpdateBarrierParameter\<close> returns: the first call of a
  problem without bounds; a later call of such a problem; a call that ends in the free
  mode; the switch from the free to the fixed mode; a call that stays in the fixed mode
  and commits nothing; and one that stays there and shrinks \<open>mu\<close>.
\<close>

lemma check_no_bounds_cases:
  "(\<not> check_if_no_bounds s \<and> n_bounds it = 0 \<and>
      check_no_bounds it s = s\<lparr>no_bounds := True, curr_mu := mu_min s, curr_tau := tau_min s,
                                check_if_no_bounds := True\<rparr>)
   \<or> ((check_if_no_bounds s \<or> n_bounds it \<noteq> 0) \<and> check_no_bounds it s = s\<lparr>check_if_no_bounds := True\<rparr>)"
  by (cases "check_if_no_bounds s") (simp_all add: check_no_bounds_def n_bounds_def Let_def)

lemma UpdateBarrierParameter_cases:
  assumes "UpdateBarrierParameter it s = Inr s'"
  shows "(\<not> check_if_no_bounds s \<and> n_bounds it = 0 \<and>
            s' = s\<lparr>no_bounds := True, curr_mu := mu_min s, curr_tau := tau_min s,
                    check_if_no_bounds := True\<rparr>)
       \<or> (no_bounds s \<and> \<not> (\<not> check_if_no_bounds s \<and> n_bounds it = 0) \<and>
            s' = s\<lparr>check_if_no_bounds := True\<rparr>)
       \<or> (\<not> no_bounds s \<and> \<not> (\<not> check_if_no_bounds s \<and> n_bounds it = 0) \<and>
            (\<exists>r f i mu.
               s' = s\<lparr>check_if_no_bounds := True, FreeMuMode := True, refs_vals := r,
                       filter_m := f, init_dual_inf := latched_dual_inf it s, init_primal_inf := latched_primal_inf it s,
                       info_string := i, curr_mu := mu, curr_tau := Compute_tau s mu,
                       linesearch_resets := Suc (linesearch_resets s)\<rparr> \<and>
               (mu_min s \<le> mu_max s \<longrightarrow> mu_min s \<le> mu \<and> mu \<le> mu_max s)))
       \<or> (\<not> no_bounds s \<and> \<not> (\<not> check_if_no_bounds s \<and> n_bounds it = 0) \<and> FreeMuMode s \<and>
            (\<exists>mu.
               s' = s\<lparr>check_if_no_bounds := True, FreeMuMode := False,
                       init_dual_inf := latched_dual_inf it s, init_primal_inf := latched_primal_inf it s,
                       info_string := info_string s @ ''F'', curr_mu := mu,
                       curr_tau := Compute_tau s mu,
                       linesearch_resets := Suc (linesearch_resets s)\<rparr> \<and>
               (mu_min s \<le> mu_max s \<longrightarrow> mu_min s \<le> mu \<and> mu \<le> mu_max s)))
       \<or> (\<not> no_bounds s \<and> \<not> (\<not> check_if_no_bounds s \<and> n_bounds it = 0) \<and> \<not> FreeMuMode s \<and>
            s' = s\<lparr>check_if_no_bounds := True, info_string := info_string s @ ''F''\<rparr>)
       \<or> (\<not> no_bounds s \<and> \<not> (\<not> check_if_no_bounds s \<and> n_bounds it = 0) \<and> \<not> FreeMuMode s \<and>
            s' = s\<lparr>check_if_no_bounds := True, info_string := info_string s @ ''F'',
                    curr_mu := shrunk_mu it s, curr_tau := Compute_tau s (curr_mu s),
                    linesearch_resets := Suc (linesearch_resets s)\<rparr>)"
proof -
  define s1 where "s1 = check_no_bounds it s"
  have "(\<not> check_if_no_bounds s \<and> n_bounds it = 0 \<and>
      s1 = s\<lparr>no_bounds := True, curr_mu := mu_min s, curr_tau := tau_min s,
                                check_if_no_bounds := True\<rparr>)
   \<or> ((check_if_no_bounds s \<or> n_bounds it \<noteq> 0) \<and> s1 = s\<lparr>check_if_no_bounds := True\<rparr>)"
    unfolding s1_def by (rule check_no_bounds_cases)
  then consider (first) "\<not> check_if_no_bounds s" "n_bounds it = 0"
      "s1 = s\<lparr>no_bounds := True, curr_mu := mu_min s, curr_tau := tau_min s,
               check_if_no_bounds := True\<rparr>"
    | (later) "check_if_no_bounds s \<or> n_bounds it \<noteq> 0" "s1 = s\<lparr>check_if_no_bounds := True\<rparr>"
    by fast
  then show ?thesis
  proof cases
    case first
    with assms have "s' = s1" by (simp add: UpdateBarrierParameter_def Let_def s1_def)
    with first show ?thesis by simp
  next
    case later
    show ?thesis
    proof (cases "no_bounds s")
      case True
      with later assms have "s' = s1" by (simp add: UpdateBarrierParameter_def Let_def s1_def)
      with later True show ?thesis by simp
    next
      case nb: False
      with later have "\<not> no_bounds s1" by simp
      with assms have run: "bindE (mode_transition it s1) (free_mu_computation it) = Inr s'"
        by (simp add: UpdateBarrierParameter_def Let_def s1_def)
      then obtain s2 where mt: "mode_transition it s1 = Inr s2"
        and fc: "free_mu_computation it s2 = Inr s'"
        by (auto simp: bindE_Inr_iff)
      show ?thesis
      proof (cases "FreeMuMode s")
        case Free: True
        with later have "FreeMuMode s1" by simp
        from mode_transition_Free [OF mt this]
        consider (accepted) r f where "s2 = s1\<lparr>refs_vals := r, filter_m := f\<rparr>"
          | (fixed) mu where
              "s2 = s1\<lparr>FreeMuMode := False, init_dual_inf := latched_dual_inf it s1,
                        init_primal_inf := latched_primal_inf it s1,
                        curr_mu := mu, curr_tau := Compute_tau s1 mu,
                        linesearch_resets := Suc (linesearch_resets s1)\<rparr>"
              "mu_min s1 \<le> mu_max s1 \<longrightarrow> mu_min s1 \<le> mu \<and> mu \<le> mu_max s1"
          by blast
        then show ?thesis
        proof cases
          case accepted
          with later Free have "FreeMuMode s2" by simp
          from free_mu_computation_Free [OF fc this] obtain i mu
            where "s' = s2\<lparr>init_dual_inf := latched_dual_inf it s2,
                      init_primal_inf := latched_primal_inf it s2, info_string := i,
                      curr_mu := mu, curr_tau := Compute_tau s2 mu,
                      linesearch_resets := Suc (linesearch_resets s2)\<rparr>"
              and "mu_min s2 \<le> mu_max s2 \<longrightarrow> mu_min s2 \<le> mu \<and> mu \<le> mu_max s2"
            by blast
          with accepted later Free
          have "s' = s\<lparr>check_if_no_bounds := True, FreeMuMode := True, refs_vals := r,
                       filter_m := f, init_dual_inf := latched_dual_inf it s, init_primal_inf := latched_primal_inf it s,
                       info_string := i, curr_mu := mu, curr_tau := Compute_tau s mu,
                       linesearch_resets := Suc (linesearch_resets s)\<rparr> \<and>
               (mu_min s \<le> mu_max s \<longrightarrow> mu_min s \<le> mu \<and> mu \<le> mu_max s)"
            by (simp add: Compute_tau_def latched_dual_inf_def latched_primal_inf_def)
          with nb later show ?thesis by blast
        next
          case fixed
          then have "\<not> FreeMuMode s2" by simp
          from free_mu_computation_Fixed [OF fc this] fixed later
          have "s' = s\<lparr>check_if_no_bounds := True, FreeMuMode := False,
                       init_dual_inf := latched_dual_inf it s, init_primal_inf := latched_primal_inf it s,
                       info_string := info_string s @ ''F'', curr_mu := mu,
                       curr_tau := Compute_tau s mu,
                       linesearch_resets := Suc (linesearch_resets s)\<rparr> \<and>
               (mu_min s \<le> mu_max s \<longrightarrow> mu_min s \<le> mu \<and> mu \<le> mu_max s)"
            by (simp add: Compute_tau_def latched_dual_inf_def latched_primal_inf_def)
          with nb later Free show ?thesis by blast
        qed
      next
        case Fixed: False
        with later have "\<not> FreeMuMode s1" by simp
        from mode_transition_Fixed [OF mt this]
        consider (accepted) r f where "s2 = s1\<lparr>FreeMuMode := True, refs_vals := r, filter_m := f\<rparr>"
          | (stay) "s2 = s1"
          | (shrink) "s2 = s1\<lparr>curr_mu := shrunk_mu it s1, curr_tau := Compute_tau s1 (curr_mu s1),
                 linesearch_resets := Suc (linesearch_resets s1)\<rparr>"
          by blast
        then show ?thesis
        proof cases
          case accepted
          then have "FreeMuMode s2" by simp
          from free_mu_computation_Free [OF fc this] obtain i mu
            where "s' = s2\<lparr>init_dual_inf := latched_dual_inf it s2,
                      init_primal_inf := latched_primal_inf it s2, info_string := i,
                      curr_mu := mu, curr_tau := Compute_tau s2 mu,
                      linesearch_resets := Suc (linesearch_resets s2)\<rparr>"
              and "mu_min s2 \<le> mu_max s2 \<longrightarrow> mu_min s2 \<le> mu \<and> mu \<le> mu_max s2"
            by blast
          with accepted later
          have "s' = s\<lparr>check_if_no_bounds := True, FreeMuMode := True, refs_vals := r,
                       filter_m := f, init_dual_inf := latched_dual_inf it s, init_primal_inf := latched_primal_inf it s,
                       info_string := i, curr_mu := mu, curr_tau := Compute_tau s mu,
                       linesearch_resets := Suc (linesearch_resets s)\<rparr> \<and>
               (mu_min s \<le> mu_max s \<longrightarrow> mu_min s \<le> mu \<and> mu \<le> mu_max s)"
            by (simp add: Compute_tau_def latched_dual_inf_def latched_primal_inf_def)
          with nb later show ?thesis by blast
        next
          case stay
          with Fixed later have "\<not> FreeMuMode s2" by simp
          from free_mu_computation_Fixed [OF fc this] stay later
          have "s' = s\<lparr>check_if_no_bounds := True, info_string := info_string s @ ''F''\<rparr>"
            by simp
          with nb later Fixed show ?thesis by blast
        next
          case shrink
          with Fixed later have "\<not> FreeMuMode s2" by simp
          from free_mu_computation_Fixed [OF fc this] shrink later
          have "s' = s\<lparr>check_if_no_bounds := True, info_string := info_string s @ ''F'',
                    curr_mu := shrunk_mu it s, curr_tau := Compute_tau s (curr_mu s),
                    linesearch_resets := Suc (linesearch_resets s)\<rparr>"
            by (simp add: Compute_tau_def shrunk_mu_def)
          with nb later Fixed show ?thesis by blast
        qed
      qed
    qed
  qed
qed

text \<open>The same, as what the call does to the fields the properties below speak of.\<close>

lemma UpdateBarrierParameter_summary:
  assumes "UpdateBarrierParameter it s = Inr s'"
  shows "(\<not> check_if_no_bounds s \<and> n_bounds it = 0 \<and> no_bounds s' \<and>
            curr_mu s' = mu_min s \<and> curr_tau s' = tau_min s \<and>
            linesearch_resets s' = linesearch_resets s \<and>
            init_dual_inf s' = init_dual_inf s \<and> init_primal_inf s' = init_primal_inf s)
       \<or> (\<not> (\<not> check_if_no_bounds s \<and> n_bounds it = 0) \<and> no_bounds s' \<and>
            curr_mu s' = curr_mu s \<and> curr_tau s' = curr_tau s \<and>
            linesearch_resets s' = linesearch_resets s \<and>
            init_dual_inf s' = init_dual_inf s \<and> init_primal_inf s' = init_primal_inf s)
       \<or> (\<not> (\<not> check_if_no_bounds s \<and> n_bounds it = 0) \<and> \<not> no_bounds s' \<and>
            (FreeMuMode s \<or> FreeMuMode s') \<and>
            curr_tau s' = Compute_tau s (curr_mu s') \<and>
            (mu_min s \<le> mu_max s \<longrightarrow> mu_min s \<le> curr_mu s' \<and> curr_mu s' \<le> mu_max s) \<and>
            linesearch_resets s' = Suc (linesearch_resets s) \<and>
            init_dual_inf s' = latched_dual_inf it s \<and>
            init_primal_inf s' = latched_primal_inf it s)
       \<or> (\<not> (\<not> check_if_no_bounds s \<and> n_bounds it = 0) \<and> \<not> no_bounds s' \<and>
            \<not> FreeMuMode s \<and> \<not> FreeMuMode s' \<and>
            curr_mu s' = curr_mu s \<and> curr_tau s' = curr_tau s \<and>
            linesearch_resets s' = linesearch_resets s \<and>
            init_dual_inf s' = init_dual_inf s \<and> init_primal_inf s' = init_primal_inf s)
       \<or> (\<not> (\<not> check_if_no_bounds s \<and> n_bounds it = 0) \<and> \<not> no_bounds s' \<and>
            \<not> FreeMuMode s \<and> \<not> FreeMuMode s' \<and>
            curr_mu s' = shrunk_mu it s \<and> curr_tau s' = Compute_tau s (curr_mu s) \<and>
            linesearch_resets s' = Suc (linesearch_resets s) \<and>
            init_dual_inf s' = init_dual_inf s \<and> init_primal_inf s' = init_primal_inf s)"
  (is "?N1 \<or> ?N2 \<or> ?F12 \<or> ?F3 \<or> ?F4")
  using UpdateBarrierParameter_cases [OF assms]
proof (elim disjE)
  assume "\<not> check_if_no_bounds s \<and> n_bounds it = 0 \<and>
            s' = s\<lparr>no_bounds := True, curr_mu := mu_min s, curr_tau := tau_min s,
                    check_if_no_bounds := True\<rparr>"
  then have ?N1 by simp
  then show ?thesis by (rule disjI1)
next
  assume "no_bounds s \<and> \<not> (\<not> check_if_no_bounds s \<and> n_bounds it = 0) \<and>
            s' = s\<lparr>check_if_no_bounds := True\<rparr>"
  then have ?N2 by simp
  then show ?thesis by (intro disjI2 disjI1)
next
  assume "\<not> no_bounds s \<and> \<not> (\<not> check_if_no_bounds s \<and> n_bounds it = 0) \<and>
            (\<exists>r f i mu.
               s' = s\<lparr>check_if_no_bounds := True, FreeMuMode := True, refs_vals := r,
                       filter_m := f, init_dual_inf := latched_dual_inf it s, init_primal_inf := latched_primal_inf it s,
                       info_string := i, curr_mu := mu, curr_tau := Compute_tau s mu,
                       linesearch_resets := Suc (linesearch_resets s)\<rparr> \<and>
               (mu_min s \<le> mu_max s \<longrightarrow> mu_min s \<le> mu \<and> mu \<le> mu_max s))"
  then obtain r f i mu where
     "\<not> no_bounds s" "\<not> (\<not> check_if_no_bounds s \<and> n_bounds it = 0)"
     "s' = s\<lparr>check_if_no_bounds := True, FreeMuMode := True, refs_vals := r,
                       filter_m := f, init_dual_inf := latched_dual_inf it s, init_primal_inf := latched_primal_inf it s,
                       info_string := i, curr_mu := mu, curr_tau := Compute_tau s mu,
                       linesearch_resets := Suc (linesearch_resets s)\<rparr>"
     "mu_min s \<le> mu_max s \<longrightarrow> mu_min s \<le> mu \<and> mu \<le> mu_max s" by blast
  then have ?F12 by simp
  then show ?thesis by (intro disjI2 disjI1)
next
  assume "\<not> no_bounds s \<and> \<not> (\<not> check_if_no_bounds s \<and> n_bounds it = 0) \<and> FreeMuMode s \<and>
            (\<exists>mu.
               s' = s\<lparr>check_if_no_bounds := True, FreeMuMode := False,
                       init_dual_inf := latched_dual_inf it s, init_primal_inf := latched_primal_inf it s,
                       info_string := info_string s @ ''F'', curr_mu := mu,
                       curr_tau := Compute_tau s mu,
                       linesearch_resets := Suc (linesearch_resets s)\<rparr> \<and>
               (mu_min s \<le> mu_max s \<longrightarrow> mu_min s \<le> mu \<and> mu \<le> mu_max s))"
  then obtain mu where
     "\<not> no_bounds s" "\<not> (\<not> check_if_no_bounds s \<and> n_bounds it = 0)" "FreeMuMode s"
     "s' = s\<lparr>check_if_no_bounds := True, FreeMuMode := False,
                       init_dual_inf := latched_dual_inf it s, init_primal_inf := latched_primal_inf it s,
                       info_string := info_string s @ ''F'', curr_mu := mu,
                       curr_tau := Compute_tau s mu,
                       linesearch_resets := Suc (linesearch_resets s)\<rparr>"
     "mu_min s \<le> mu_max s \<longrightarrow> mu_min s \<le> mu \<and> mu \<le> mu_max s" by blast
  then have ?F12 by simp
  then show ?thesis by (intro disjI2 disjI1)
next
  assume "\<not> no_bounds s \<and> \<not> (\<not> check_if_no_bounds s \<and> n_bounds it = 0) \<and> \<not> FreeMuMode s \<and>
            s' = s\<lparr>check_if_no_bounds := True, info_string := info_string s @ ''F''\<rparr>"
  then have ?F3 by simp
  then show ?thesis by (intro disjI2 disjI1)
next
  assume "\<not> no_bounds s \<and> \<not> (\<not> check_if_no_bounds s \<and> n_bounds it = 0) \<and> \<not> FreeMuMode s \<and>
            s' = s\<lparr>check_if_no_bounds := True, info_string := info_string s @ ''F'',
                    curr_mu := shrunk_mu it s, curr_tau := Compute_tau s (curr_mu s),
                    linesearch_resets := Suc (linesearch_resets s)\<rparr>"
  then have ?F4 by simp
  then show ?thesis by (intro disjI2)
qed

section \<open>Calls that return\<close>

text \<open>
  The operations return a result, and no failure, on every iterate with a variable or a
  slack once no baseline is 0, the history has room for at least one reference under
  selector 1, and \<open>mu\<close> is not negative in the fixed mode.
\<close>

lemma curr_norm_pd_system_defined:
  assumes "0 < dim_x it + dim_s it"
  shows "curr_norm_pd_system it =
           Inr (averaged_primal_inf it + averaged_dual_inf it + averaged_complementarity it)"
  using assms
  by (simp add: curr_norm_pd_system_def Number_div_def Let_def averaged_primal_inf_def
        averaged_dual_inf_def averaged_complementarity_def n_bounds_def)

lemma lower_mu_safeguard_defined:
  assumes "0 < dim_x it + dim_s it"
    and "init_dual_inf s \<noteq> 0" and "init_primal_inf s \<noteq> 0"
    and "adaptive_globalization s = 1 \<longrightarrow> refs_vals s \<noteq> []"
  shows "\<exists>v. lower_mu_safeguard it s =
               Inr (v, s\<lparr>init_dual_inf := latched_dual_inf it s,
                          init_primal_inf := latched_primal_inf it s\<rparr>)"
proof -
  have n: "real (dim_x it + dim_s it) \<noteq> 0"
    using assms(1) by (simp del: of_nat_add)
  have one: "max 1 x \<noteq> 0" for x :: real
    by (simp add: max_def)
  have "\<exists>p. lower_mu_safeguard it s = Inr p"
  proof (cases "adaptive_globalization s = 1")
    case True
    with assms(4) obtain r rs where "refs_vals s = r # rs"
      by (cases "refs_vals s") auto
    with True assms(2,3) n one show ?thesis
      unfolding lower_mu_safeguard_def Let_def
      by (simp add: Number_div_def min_ref_val_def del: of_nat_add)
  next
    case False
    with assms(2,3) n one show ?thesis
      unfolding lower_mu_safeguard_def Let_def
      by (simp add: Number_div_def del: of_nat_add)
  qed
  then obtain v s' where run: "lower_mu_safeguard it s = Inr (v, s')" by auto
  from lower_mu_safeguard_state [OF run] run show ?thesis by blast
qed

lemma CheckSufficientProgress_returns:
  assumes "0 < dim_x it + dim_s it"
  shows "\<exists>b. CheckSufficientProgress it s = Inr b"
  using curr_norm_pd_system_defined [OF assms]
  by (auto simp: CheckSufficientProgress_def Let_def)

lemma CheckSufficientProgress_False:
  assumes "CheckSufficientProgress it s = Inr False"
  shows "(adaptive_globalization s = 1 \<and> num_refs_max s \<le> int (length (refs_vals s))) \<or>
         adaptive_globalization s = 2"
  using assms by (auto simp: CheckSufficientProgress_def Let_def split: if_splits)

lemma Remember_returns:
  assumes "0 < dim_x it + dim_s it"
    and "adaptive_globalization s = 1 \<longrightarrow> 1 \<le> num_refs_max s"
  shows "\<exists>r f. RememberCurrentPointAsAccepted it s = Inr (s\<lparr>refs_vals := r, filter_m := f\<rparr>) \<and>
               (adaptive_globalization s = 1 \<longrightarrow> r \<noteq> [])"
proof -
  note norm = curr_norm_pd_system_defined [OF assms(1)]
  consider "adaptive_globalization s = 1" | "adaptive_globalization s \<noteq> 1" "adaptive_globalization s = 2"
    | "adaptive_globalization s \<noteq> 1" "adaptive_globalization s \<noteq> 2" by blast
  then show ?thesis
  proof cases
    case 1
    show ?thesis
    proof (cases "num_refs_max s \<le> int (length (refs_vals s))")
      case True
      with 1 assms(2) obtain x rest where "refs_vals s = x # rest"
        by (cases "refs_vals s") auto
      with 1 True norm have "RememberCurrentPointAsAccepted it s =
          Inr (s\<lparr>refs_vals := rest @ [averaged_primal_inf it + averaged_dual_inf it +
                   averaged_complementarity it], filter_m := filter_m s\<rparr>)"
        by (simp add: RememberCurrentPointAsAccepted_def pop_front_def Let_def)
      then show ?thesis by blast
    next
      case False
      with 1 norm have "RememberCurrentPointAsAccepted it s =
          Inr (s\<lparr>refs_vals := refs_vals s @ [averaged_primal_inf it + averaged_dual_inf it +
                   averaged_complementarity it], filter_m := filter_m s\<rparr>)"
        by (simp add: RememberCurrentPointAsAccepted_def Let_def)
      then show ?thesis by blast
    qed
  next
    case 2
    then have "RememberCurrentPointAsAccepted it s =
        Inr (s\<lparr>refs_vals := refs_vals s, filter_m :=
               Filter_AddEntry (filter_m s)
                 (curr_f it - 1 / 10 ^ 5 * curr_constraint_violation it)
                 (curr_constraint_violation it - 1 / 10 ^ 5 * curr_constraint_violation it)
                 (iter_count it)\<rparr>)"
      by (simp add: RememberCurrentPointAsAccepted_def Let_def)
    with 2 show ?thesis by blast
  next
    case 3
    then have "RememberCurrentPointAsAccepted it s =
        Inr (s\<lparr>refs_vals := refs_vals s, filter_m := filter_m s\<rparr>)"
      by (simp add: RememberCurrentPointAsAccepted_def)
    with 3 show ?thesis by blast
  qed
qed

lemma free_mu_computation_returns:
  assumes "0 < dim_x it + dim_s it"
    and "init_dual_inf s \<noteq> 0" and "init_primal_inf s \<noteq> 0"
    and "FreeMuMode s \<and> adaptive_globalization s = 1 \<longrightarrow> refs_vals s \<noteq> []"
  shows "\<exists>s'. free_mu_computation it s = Inr s'"
proof (cases "FreeMuMode s")
  case True
  with assms(4) have "adaptive_globalization s = 1 \<longrightarrow> refs_vals s \<noteq> []" by simp
  from lower_mu_safeguard_defined [OF assms(1-3) this] obtain v
    where "lower_mu_safeguard it s =
             Inr (v, s\<lparr>init_dual_inf := latched_dual_inf it s,
                        init_primal_inf := latched_primal_inf it s\<rparr>)" ..
  with True show ?thesis by (simp add: free_mu_computation_def Let_def)
next
  case False
  then show ?thesis by (simp add: free_mu_computation_def)
qed

lemma NewFixedMu_returns:
  assumes "0 < dim_x it + dim_s it"
    and "init_dual_inf s \<noteq> 0" and "init_primal_inf s \<noteq> 0"
    and "(adaptive_globalization s = 1 \<and> refs_vals s \<noteq> []) \<or> adaptive_globalization s = 2"
  shows "\<exists>mu. NewFixedMu it s =
                Inr (mu, s\<lparr>init_dual_inf := latched_dual_inf it s,
                            init_primal_inf := latched_primal_inf it s\<rparr>)"
proof -
  from assms(4) have "adaptive_globalization s = 1 \<longrightarrow> refs_vals s \<noteq> []" by auto
  from lower_mu_safeguard_defined [OF assms(1-3) this] obtain v
    where sg: "lower_mu_safeguard it s =
             Inr (v, s\<lparr>init_dual_inf := latched_dual_inf it s,
                        init_primal_inf := latched_primal_inf it s\<rparr>)" ..
  from assms(4) show ?thesis
  proof
    assume "adaptive_globalization s = 1 \<and> refs_vals s \<noteq> []"
    then obtain r rs where "adaptive_globalization s = 1" "refs_vals s = r # rs"
      by (cases "refs_vals s") auto
    with sg show ?thesis by (simp add: NewFixedMu_def max_ref_val_def Let_def)
  next
    assume "adaptive_globalization s = 2"
    with sg show ?thesis by (simp add: NewFixedMu_def Let_def)
  qed
qed

lemma mode_transition_returns:
  assumes "0 < dim_x it + dim_s it"
    and "init_dual_inf s \<noteq> 0" and "init_primal_inf s \<noteq> 0"
    and "adaptive_globalization s = 1 \<longrightarrow> 1 \<le> num_refs_max s"
    and "\<not> FreeMuMode s \<longrightarrow> 0 \<le> curr_mu s"
  shows "\<exists>s'. mode_transition it s = Inr s' \<and>
              init_dual_inf s' \<noteq> 0 \<and> init_primal_inf s' \<noteq> 0 \<and>
              (FreeMuMode s' \<and> adaptive_globalization s' = 1 \<longrightarrow> refs_vals s' \<noteq> [])"
proof -
  have one: "max 1 x \<noteq> 0" for x :: real
    by (simp add: max_def)
  from assms(2,3) one have latched: "latched_dual_inf it s \<noteq> 0" "latched_primal_inf it s \<noteq> 0"
    by (simp_all add: latched_dual_inf_def latched_primal_inf_def)
  from CheckSufficientProgress_returns [OF assms(1)] obtain b
    where check: "CheckSufficientProgress it s = Inr b" ..
  show ?thesis
  proof (cases b)
    case True
    let ?s0 = "s\<lparr>FreeMuMode := True\<rparr>"
    from assms(4) have "adaptive_globalization ?s0 = 1 \<longrightarrow> 1 \<le> num_refs_max ?s0" by simp
    from Remember_returns [OF assms(1) this] obtain r f
      where rem: "RememberCurrentPointAsAccepted it ?s0 = Inr (?s0\<lparr>refs_vals := r, filter_m := f\<rparr>)"
        and r: "adaptive_globalization s = 1 \<longrightarrow> r \<noteq> []" by auto
    show ?thesis
    proof (cases "FreeMuMode s")
      case Free: True
      then have "?s0 = s" by simp
      with rem check True Free have "mode_transition it s = Inr (s\<lparr>refs_vals := r, filter_m := f\<rparr>)"
        by (simp add: mode_transition_def)
      with r assms(2,3) show ?thesis by simp
    next
      case False
      with rem check True have "mode_transition it s = Inr (?s0\<lparr>refs_vals := r, filter_m := f\<rparr>)"
        by (simp add: mode_transition_def)
      with r assms(2,3) show ?thesis by simp
    qed
  next
    case insufficient: False
    show ?thesis
    proof (cases "FreeMuMode s")
      case Free: True
      let ?s0 = "s\<lparr>FreeMuMode := False\<rparr>"
      from check insufficient CheckSufficientProgress_False [of it s]
      have "(adaptive_globalization s = 1 \<and> num_refs_max s \<le> int (length (refs_vals s))) \<or>
         adaptive_globalization s = 2" by simp
      with assms(4) have "(adaptive_globalization ?s0 = 1 \<and> refs_vals ?s0 \<noteq> []) \<or>
          adaptive_globalization ?s0 = 2" by auto
      from NewFixedMu_returns [OF assms(1) _ _ this] assms(2,3) obtain mu
        where "NewFixedMu it ?s0 = Inr (mu, ?s0\<lparr>init_dual_inf := latched_dual_inf it ?s0,
                            init_primal_inf := latched_primal_inf it ?s0\<rparr>)" by auto
      with check insufficient Free have "mode_transition it s =
          Inr (?s0\<lparr>init_dual_inf := latched_dual_inf it s,
                   init_primal_inf := latched_primal_inf it s, curr_mu := mu,
                   curr_tau := Compute_tau s mu,
                   linesearch_resets := Suc (linesearch_resets s)\<rparr>)"
        by (simp add: mode_transition_def Let_def Compute_tau_def latched_dual_inf_def
              latched_primal_inf_def)
      with latched show ?thesis by simp
    next
      case Fixed: False
      with assms(5) have mu: "0 \<le> curr_mu s" by simp
      show ?thesis
      proof (cases "curr_barrier_error it \<le> kappa_epsilon s * curr_mu s")
        case True
        with check insufficient Fixed mu have "mode_transition it s =
            Inr (s\<lparr>curr_mu := shrunk_mu it s, curr_tau := Compute_tau s (curr_mu s),
                   linesearch_resets := Suc (linesearch_resets s)\<rparr>)"
          by (simp add: mode_transition_def Number_pow_def Let_def shrunk_mu_def)
        with Fixed assms(2,3) show ?thesis by simp
      next
        case False
        with check insufficient Fixed have "mode_transition it s = Inr s"
          by (simp add: mode_transition_def Let_def)
        with Fixed assms(2,3) show ?thesis by simp
      qed
    qed
  qed
qed

lemma UpdateBarrierParameter_returns:
  assumes "0 < dim_x it + dim_s it"
    and "init_dual_inf s \<noteq> 0" and "init_primal_inf s \<noteq> 0"
    and "adaptive_globalization s = 1 \<longrightarrow> 1 \<le> num_refs_max s"
    and "\<not> FreeMuMode s \<longrightarrow> 0 \<le> curr_mu s"
  shows "\<exists>s'. UpdateBarrierParameter it s = Inr s'"
proof (cases "no_bounds (check_no_bounds it s)")
  case True
  then show ?thesis by (simp add: UpdateBarrierParameter_def Let_def)
next
  case False
  with check_no_bounds_cases [of s it]
  have s1: "check_no_bounds it s = s\<lparr>check_if_no_bounds := True\<rparr>" by auto
  let ?s1 = "s\<lparr>check_if_no_bounds := True\<rparr>"
  from assms have "\<exists>s2. mode_transition it ?s1 = Inr s2 \<and>
              init_dual_inf s2 \<noteq> 0 \<and> init_primal_inf s2 \<noteq> 0 \<and>
              (FreeMuMode s2 \<and> adaptive_globalization s2 = 1 \<longrightarrow> refs_vals s2 \<noteq> [])"
    by (intro mode_transition_returns) simp_all
  then obtain s2 where mt: "mode_transition it ?s1 = Inr s2"
    and s2: "init_dual_inf s2 \<noteq> 0" "init_primal_inf s2 \<noteq> 0"
      "FreeMuMode s2 \<and> adaptive_globalization s2 = 1 \<longrightarrow> refs_vals s2 \<noteq> []" by blast
  from free_mu_computation_returns [OF assms(1) s2] obtain s'
    where "free_mu_computation it s2 = Inr s'" ..
  with mt False s1 show ?thesis by (simp add: UpdateBarrierParameter_def Let_def)
qed

section \<open>The fraction-to-the-boundary parameter\<close>

text \<open>
  C1, as the code has it. A call that returns and is not on the no-bounds path commits,
  whenever it starts or ends in the free mode (the computation of lines 267 to 304, or
  the switch to the fixed mode of lines 252 to 263), a pair in which \<open>tau\<close> is
  \<open>max(tau_min, min(1 - mu, tau_max))\<close> for the \<open>mu\<close> committed by that same call. The
  first call of a problem without bounds commits \<open>mu_min\<close> and \<open>tau_min\<close>. Nothing is
  said here about the shrink step of the fixed mode.
\<close>

theorem committed_tau_is_clamp_of_committed_mu:
  assumes "UpdateBarrierParameter it s = Inr s'"
  shows "(\<not> no_bounds s' \<and> (FreeMuMode s \<or> FreeMuMode s') \<longrightarrow>
            curr_tau s' = max (tau_min s) (min (1 - curr_mu s') (tau_max s))) \<and>
         (\<not> check_if_no_bounds s \<and> n_bounds it = 0 \<longrightarrow>
            curr_mu s' = mu_min s \<and> curr_tau s' = tau_min s)"
  using UpdateBarrierParameter_summary [OF assms] unfolding Compute_tau_def by blast

text \<open>
  The example of the specification: the oracle proposes 0.05 and \<open>tau\<close> becomes 0.9.
\<close>

theorem committed_tau_is_clamp_of_committed_mu_witness:
  "UpdateBarrierParameter (an_iterate 0) spec_example_state =
     Inr (spec_example_state\<lparr>init_dual_inf := 1, init_primal_inf := 1, refs_vals := [0],
            check_if_no_bounds := True, curr_mu := 1 / 20, curr_tau := 9 / 10,
            linesearch_resets := 1\<rparr>) \<and>
   FreeMuMode spec_example_state \<and>
   (9 / 10 :: real) = max (tau_min spec_example_state)
                        (min (1 - 1 / 20) (tau_max spec_example_state))"
proof -
  have run: "UpdateBarrierParameter (an_iterate 0) spec_example_state =
     Inr (spec_example_state\<lparr>init_dual_inf := 1, init_primal_inf := 1, refs_vals := [0],
            check_if_no_bounds := True, curr_mu := 1 / 20, curr_tau := 9 / 10,
            linesearch_resets := 1\<rparr>)"
    by (simp add: spec_example_state_def eval_init eval_update eval_norm)
  have free: "FreeMuMode spec_example_state" "\<not> no_bounds spec_example_state"
    by (simp_all add: spec_example_state_def eval_init)
  from committed_tau_is_clamp_of_committed_mu [OF run] free
  have "(9 / 10 :: real) = max (tau_min spec_example_state)
                             (min (1 - 1 / 20) (tau_max spec_example_state))"
    by simp
  with run free show ?thesis by simp
qed

text \<open>
  Two committed pairs that are not the clamp. With \<open>tau_max = 1\<close> the first call of a
  problem without bounds commits \<open>mu_min = 1e-9\<close> with \<open>tau_min = 0.99\<close>, where the clamp of
  \<open>1 - 1e-9\<close> is \<open>1 - 1e-9\<close>. With \<open>tau_min = 0.5\<close> and \<open>tau_max = 0.99\<close>, the third of
  three calls shrinks \<open>mu\<close> from 1 to 0.2 in the fixed mode and commits it with the
  clamp of the old \<open>mu\<close>, 0.5, where the clamp of \<open>1 - 0.2\<close> is 0.8.
\<close>

theorem committed_tau_not_clamp_counterexample:
  "UpdateBarrierParameter unbounded_iterate wide_tau_state =
     Inr (wide_tau_state\<lparr>no_bounds := True, curr_mu := 1 / 10 ^ 9, curr_tau := 99 / 100,
            check_if_no_bounds := True\<rparr>) \<and>
   Compute_tau wide_tau_state (1 / 10 ^ 9) = 1 - 1 / 10 ^ 9 \<and>
   UpdateBarrierParameter_calls [an_iterate 10, an_iterate 20, an_iterate 20]
       two_sided_tau_state =
     Inr (two_sided_tau_state\<lparr>init_dual_inf := 10, init_primal_inf := 1,
            refs_vals := [10], check_if_no_bounds := True, curr_mu := 1 / 5,
            curr_tau := 1 / 2, FreeMuMode := False, info_string := ''FF'',
            linesearch_resets := 3\<rparr>) \<and>
   Compute_tau two_sided_tau_state (1 / 5) = 4 / 5"
  by (simp add: wide_tau_state_def two_sided_tau_state_def unbounded_iterate_def
        eval_init eval_update eval_norm)

text \<open>
  The shrink step alone (lines 233 to 237): \<open>new_tau\<close> is computed from \<open>mu\<close>, the
  value read, not from \<open>new_mu\<close>, the value committed beside it.
\<close>

lemma fixed_mode_shrink_takes_tau_from_old_mu:
  assumes "\<not> FreeMuMode s" and "0 \<le> curr_mu s"
    and "CheckSufficientProgress it s = Inr False"
    and "curr_barrier_error it \<le> kappa_epsilon s * curr_mu s"
  shows "mode_transition it s =
           Inr (s\<lparr>curr_mu := shrunk_mu it s, curr_tau := Compute_tau s (curr_mu s),
                   linesearch_resets := Suc (linesearch_resets s)\<rparr>)"
  using assms by (simp add: mode_transition_def Number_pow_def Let_def shrunk_mu_def)

section \<open>The range of the barrier parameter\<close>

text \<open>
  C2, as the code has it. For a valid configuration (\<open>0 < mu_min < mu_max\<close>) and a call
  that returns: the first call of a problem without bounds commits \<open>mu_min\<close>; a call
  that starts or ends in the free mode commits a \<open>mu\<close> with
  \<open>mu_min \<le> mu \<le> mu_max\<close>; a call that stays in the fixed mode leaves \<open>mu\<close> as it was
  or commits \<open>max(min(kappa_mu * mu, mu ^ theta_mu), epsilon_tol / 10)\<close>. So the bounds
  hold after the call whenever they held before it, \<open>kappa_mu \<le> 1\<close> and
  \<open>mu_min \<le> epsilon_tol / 10 \<le> mu_max\<close>. Nothing is said here about which
  configurations meet the last condition: for the default \<open>mu_min = 0.1 * epsilon_tol\<close>
  it is a comparison of two rounded products in the code.
\<close>

theorem committed_mu_within_bounds:
  assumes "0 < mu_min s" and "mu_min s < mu_max s"
    and "UpdateBarrierParameter it s = Inr s'"
  shows "(\<not> check_if_no_bounds s \<and> n_bounds it = 0 \<longrightarrow> curr_mu s' = mu_min s) \<and>
         (\<not> no_bounds s' \<and> (FreeMuMode s \<or> FreeMuMode s') \<longrightarrow>
            mu_min s \<le> curr_mu s' \<and> curr_mu s' \<le> mu_max s) \<and>
         (\<not> no_bounds s' \<and> \<not> FreeMuMode s \<and> \<not> FreeMuMode s' \<longrightarrow>
            curr_mu s' = curr_mu s \<or> curr_mu s' = shrunk_mu it s) \<and>
         (mu_min s \<le> curr_mu s \<and> curr_mu s \<le> mu_max s \<and> kappa_mu s \<le> 1 \<and>
          mu_min s \<le> epsilon_tol it / 10 \<and> epsilon_tol it / 10 \<le> mu_max s \<longrightarrow>
            mu_min s \<le> curr_mu s' \<and> curr_mu s' \<le> mu_max s)"
proof -
  have shrink: "mu_min s \<le> shrunk_mu it s \<and> shrunk_mu it s \<le> mu_max s"
    if "mu_min s \<le> curr_mu s" "curr_mu s \<le> mu_max s" "kappa_mu s \<le> 1"
       "mu_min s \<le> epsilon_tol it / 10" "epsilon_tol it / 10 \<le> mu_max s"
  proof -
    from assms(1) that(1) have "0 \<le> curr_mu s" by simp
    then have "kappa_mu s * curr_mu s \<le> 1 * curr_mu s"
      using that(3) by (intro mult_right_mono) auto
    with that(2) have "kappa_mu s * curr_mu s \<le> mu_max s" by simp
    with that show ?thesis unfolding shrunk_mu_def by auto
  qed
  from assms(1,2) have le: "mu_min s \<le> mu_max s" by simp
  define first where "first \<longleftrightarrow> \<not> check_if_no_bounds s \<and> n_bounds it = 0"
  define pre where
    "pre \<longleftrightarrow> mu_min s \<le> curr_mu s \<and> curr_mu s \<le> mu_max s \<and> kappa_mu s \<le> 1 \<and>
       mu_min s \<le> epsilon_tol it / 10 \<and> epsilon_tol it / 10 \<le> mu_max s"
  have pre1: "pre \<Longrightarrow> mu_min s \<le> curr_mu s \<and> curr_mu s \<le> mu_max s"
    and pre2: "pre \<Longrightarrow> mu_min s \<le> shrunk_mu it s \<and> shrunk_mu it s \<le> mu_max s"
    using shrink by (simp_all add: pre_def)
  from UpdateBarrierParameter_summary [OF assms(3)] le pre1 pre2
  have "(first \<longrightarrow> curr_mu s' = mu_min s) \<and>
         (\<not> no_bounds s' \<and> (FreeMuMode s \<or> FreeMuMode s') \<longrightarrow>
            mu_min s \<le> curr_mu s' \<and> curr_mu s' \<le> mu_max s) \<and>
         (\<not> no_bounds s' \<and> \<not> FreeMuMode s \<and> \<not> FreeMuMode s' \<longrightarrow>
            curr_mu s' = curr_mu s \<or> curr_mu s' = shrunk_mu it s) \<and>
         (pre \<longrightarrow> mu_min s \<le> curr_mu s' \<and> curr_mu s' \<le> mu_max s)"
    unfolding first_def [symmetric] by (elim disjE conjE) simp_all
  then show ?thesis unfolding first_def pre_def .
qed

text \<open>
  Each part of the statement at a concrete call. With \<open>mu_min = 0.5\<close> and \<open>mu_max = 10\<close>
  the first call, in the free mode, commits 0.5. With the defaults the first call of a
  problem without bounds commits \<open>mu_min\<close>. With \<open>mu_min = 1e-10\<close> two calls lead to the
  fixed mode with \<open>mu = 1\<close>; the bounds hold there, \<open>kappa_mu = 0.2\<close> and
  \<open>1e-10 \<le> 1e-9 \<le> 1e10\<close>, and the third call shrinks \<open>mu\<close> to 0.2, within the bounds.
\<close>

theorem committed_mu_within_bounds_witness:
  "0 < mu_min raised_mu_min_state \<and> mu_min raised_mu_min_state < mu_max raised_mu_min_state \<and>
   UpdateBarrierParameter (an_iterate 10) raised_mu_min_state =
     Inr (raised_mu_min_state\<lparr>init_dual_inf := 10, init_primal_inf := 1, refs_vals := [10],
            check_if_no_bounds := True, curr_mu := 1 / 2, curr_tau := 99 / 100,
            linesearch_resets := 1\<rparr>) \<and>
   FreeMuMode raised_mu_min_state \<and>
   mu_min raised_mu_min_state \<le> 1 / 2 \<and> 1 / 2 \<le> mu_max raised_mu_min_state \<and>
   0 < mu_min default_state \<and> mu_min default_state < mu_max default_state \<and>
   \<not> check_if_no_bounds default_state \<and> n_bounds unbounded_iterate = 0 \<and>
   UpdateBarrierParameter unbounded_iterate default_state =
     Inr (default_state\<lparr>no_bounds := True, curr_mu := 1 / 10 ^ 9, curr_tau := 99 / 100,
            check_if_no_bounds := True\<rparr>) \<and>
   mu_min default_state = 1 / 10 ^ 9 \<and>
   0 < mu_min lowered_mu_min_fixed_state \<and>
   mu_min lowered_mu_min_fixed_state < mu_max lowered_mu_min_fixed_state \<and>
   UpdateBarrierParameter_calls [an_iterate 10, an_iterate 20] lowered_mu_min_state =
     Inr lowered_mu_min_fixed_state \<and>
   UpdateBarrierParameter (an_iterate 20) lowered_mu_min_fixed_state =
     Inr (lowered_mu_min_fixed_state\<lparr>curr_mu := 1 / 5, info_string := ''FF'',
            linesearch_resets := 3\<rparr>) \<and>
   \<not> FreeMuMode lowered_mu_min_fixed_state \<and>
   mu_min lowered_mu_min_fixed_state \<le> curr_mu lowered_mu_min_fixed_state \<and>
   curr_mu lowered_mu_min_fixed_state \<le> mu_max lowered_mu_min_fixed_state \<and>
   kappa_mu lowered_mu_min_fixed_state \<le> 1 \<and>
   mu_min lowered_mu_min_fixed_state \<le> epsilon_tol (an_iterate 20) / 10 \<and>
   epsilon_tol (an_iterate 20) / 10 \<le> mu_max lowered_mu_min_fixed_state \<and>
   shrunk_mu (an_iterate 20) lowered_mu_min_fixed_state = 1 / 5 \<and>
   mu_min lowered_mu_min_fixed_state \<le> 1 / 5 \<and> 1 / 5 \<le> mu_max lowered_mu_min_fixed_state"
proof -
  have cfg: "0 < mu_min raised_mu_min_state"
    "mu_min raised_mu_min_state < mu_max raised_mu_min_state"
    "FreeMuMode raised_mu_min_state" "\<not> no_bounds raised_mu_min_state"
    by (simp_all add: raised_mu_min_state_def eval_init)
  have run: "UpdateBarrierParameter (an_iterate 10) raised_mu_min_state =
     Inr (raised_mu_min_state\<lparr>init_dual_inf := 10, init_primal_inf := 1, refs_vals := [10],
            check_if_no_bounds := True, curr_mu := 1 / 2, curr_tau := 99 / 100,
            linesearch_resets := 1\<rparr>)"
    by (simp add: raised_mu_min_state_def eval_init eval_update eval_norm)
  from committed_mu_within_bounds [OF cfg(1,2) run] cfg(3,4)
  have free: "mu_min raised_mu_min_state \<le> 1 / 2 \<and> 1 / 2 \<le> mu_max raised_mu_min_state"
    by simp
  have dcfg: "0 < mu_min default_state" "mu_min default_state < mu_max default_state"
    "\<not> check_if_no_bounds default_state" "n_bounds unbounded_iterate = 0"
    by (simp_all add: default_state_eq unbounded_iterate_def n_bounds_def an_iterate_def)
  have drun: "UpdateBarrierParameter unbounded_iterate default_state =
     Inr (default_state\<lparr>no_bounds := True, curr_mu := 1 / 10 ^ 9, curr_tau := 99 / 100,
            check_if_no_bounds := True\<rparr>)"
    by (simp add: default_state_eq unbounded_iterate_def eval_update an_iterate_def)
  from committed_mu_within_bounds [OF dcfg(1,2) drun] dcfg(3,4)
  have first: "mu_min default_state = 1 / 10 ^ 9" by simp
  have reach: "UpdateBarrierParameter_calls [an_iterate 10, an_iterate 20]
                 lowered_mu_min_state = Inr lowered_mu_min_fixed_state"
    by (simp add: lowered_mu_min_fixed_state_def lowered_mu_min_state_def eval_init
          eval_update eval_norm)
  have fcfg: "0 < mu_min lowered_mu_min_fixed_state"
    "mu_min lowered_mu_min_fixed_state < mu_max lowered_mu_min_fixed_state"
    by (simp_all add: lowered_mu_min_fixed_state_def lowered_mu_min_state_def eval_init)
  have pre: "\<not> FreeMuMode lowered_mu_min_fixed_state"
    "mu_min lowered_mu_min_fixed_state \<le> curr_mu lowered_mu_min_fixed_state"
    "curr_mu lowered_mu_min_fixed_state \<le> mu_max lowered_mu_min_fixed_state"
    "kappa_mu lowered_mu_min_fixed_state \<le> 1"
    "mu_min lowered_mu_min_fixed_state \<le> epsilon_tol (an_iterate 20) / 10"
    "epsilon_tol (an_iterate 20) / 10 \<le> mu_max lowered_mu_min_fixed_state"
    by (simp_all add: lowered_mu_min_fixed_state_def lowered_mu_min_state_def eval_init
          an_iterate_def)
  have frun: "UpdateBarrierParameter (an_iterate 20) lowered_mu_min_fixed_state =
     Inr (lowered_mu_min_fixed_state\<lparr>curr_mu := 1 / 5, info_string := ''FF'',
            linesearch_resets := 3\<rparr>)"
    by (simp add: lowered_mu_min_fixed_state_def lowered_mu_min_state_def eval_init
          eval_update eval_norm)
  have shrunk: "shrunk_mu (an_iterate 20) lowered_mu_min_fixed_state = 1 / 5"
    by (simp add: shrunk_mu_def lowered_mu_min_fixed_state_def lowered_mu_min_state_def
          eval_init an_iterate_def)
  from committed_mu_within_bounds [OF fcfg frun] pre
  have kept: "mu_min lowered_mu_min_fixed_state \<le> 1 / 5 \<and>
              1 / 5 \<le> mu_max lowered_mu_min_fixed_state"
    by simp
  from cfg run free dcfg drun first fcfg reach frun pre shrunk kept show ?thesis
    by blast
qed

text \<open>
  With \<open>mu_min = 0.5\<close> and \<open>mu_max = 10\<close>, three calls from the initialized object: the
  first accepts the point, the second switches to the fixed mode with \<open>mu = 1\<close>, the
  third shrinks \<open>mu\<close> to \<open>max(min(0.2 * 1, 1 ^ 1.5), 1e-9) = 0.2\<close>, below \<open>mu_min\<close>.
\<close>

theorem committed_mu_below_mu_min_counterexample:
  "0 < mu_min raised_mu_min_state \<and> mu_min raised_mu_min_state < mu_max raised_mu_min_state \<and>
   UpdateBarrierParameter_calls [an_iterate 10, an_iterate 20, an_iterate 20]
       raised_mu_min_state =
     Inr (raised_mu_min_state\<lparr>init_dual_inf := 10, init_primal_inf := 1,
            refs_vals := [10], check_if_no_bounds := True, curr_mu := 1 / 5,
            curr_tau := 99 / 100, FreeMuMode := False, info_string := ''FF'',
            linesearch_resets := 3\<rparr>) \<and>
   (1 / 5 :: real) < mu_min raised_mu_min_state"
  by (simp add: raised_mu_min_state_def eval_init eval_update eval_norm)

section \<open>The reference-history test\<close>

text \<open>
  C3. Under selector 1 with \<open>mu_never_fix\<close> false, \<open>CheckSufficientProgress\<close> returns
  true whenever the history holds fewer than \<open>num_refs_max\<close> values; with a history of
  at least \<open>num_refs_max\<close> values it returns true if and only if the current scaled
  residual norm is at most \<open>refs_red_fact\<close> times some stored reference value (one
  reference is enough).
\<close>

theorem CheckSufficientProgress_reference_history:
  assumes "\<not> mu_never_fix s" and "adaptive_globalization s = 1"
  shows "(int (length (refs_vals s)) < num_refs_max s \<longrightarrow>
            CheckSufficientProgress it s = Inr True) \<and>
         (num_refs_max s \<le> int (length (refs_vals s)) \<and>
          curr_norm_pd_system it = Inr curr_error \<longrightarrow>
            CheckSufficientProgress it s =
              Inr (\<exists>r\<in>set (refs_vals s). curr_error \<le> refs_red_fact s * r))"
  using assms by (simp add: CheckSufficientProgress_def refs_loop_iff)

theorem CheckSufficientProgress_reference_history_witness:
  "\<not> mu_never_fix history_state \<and> adaptive_globalization history_state = 1 \<and>
   num_refs_max history_state \<le> int (length (refs_vals history_state)) \<and>
   curr_norm_pd_system (an_iterate (3 / 10)) = Inr (3 / 10) \<and>
   CheckSufficientProgress (an_iterate (3 / 10)) history_state = Inr True \<and>
   curr_norm_pd_system (an_iterate (46 / 100)) = Inr (46 / 100) \<and>
   CheckSufficientProgress (an_iterate (46 / 100)) history_state = Inr False"
proof -
  have cfg: "\<not> mu_never_fix history_state" "adaptive_globalization history_state = 1"
    "num_refs_max history_state = 2" "refs_vals history_state = [1 / 2, 2 / 5]"
    "refs_red_fact history_state = 9 / 10"
    by (simp_all add: history_state_def eval_init)
  have norm: "curr_norm_pd_system (an_iterate e) = Inr e" for e
    by (simp add: eval_norm)
  from CheckSufficientProgress_reference_history
         [OF cfg(1,2), of "an_iterate (3 / 10)" "3 / 10"]
  have "CheckSufficientProgress (an_iterate (3 / 10)) history_state = Inr True"
    by (simp add: cfg norm)
  moreover
  from CheckSufficientProgress_reference_history
         [OF cfg(1,2), of "an_iterate (46 / 100)" "46 / 100"]
  have "CheckSufficientProgress (an_iterate (46 / 100)) history_state = Inr False"
    by (simp add: cfg norm)
  ultimately show ?thesis by (simp add: cfg norm)
qed

section \<open>Resetting the line search\<close>

text \<open>
  C4, as the code has it. A call that returns, is not on the no-bounds path and changes
  \<open>mu\<close> or \<open>tau\<close> calls \<open>Reset()\<close> of the line search exactly once. On the no-bounds
  path \<open>Reset()\<close> is never called, also not by the first call, which sets \<open>mu\<close> and
  \<open>tau\<close>.
\<close>

theorem mu_tau_change_resets_linesearch:
  assumes "UpdateBarrierParameter it s = Inr s'"
  shows "(\<not> no_bounds s' \<and> (curr_mu s' \<noteq> curr_mu s \<or> curr_tau s' \<noteq> curr_tau s) \<longrightarrow>
            linesearch_resets s' = Suc (linesearch_resets s)) \<and>
         (no_bounds s' \<longrightarrow> linesearch_resets s' = linesearch_resets s)"
  using UpdateBarrierParameter_summary [OF assms] by blast

theorem mu_tau_change_resets_linesearch_witness:
  "UpdateBarrierParameter (an_iterate 0) default_state =
     Inr (default_state\<lparr>init_dual_inf := 1, init_primal_inf := 1, refs_vals := [0],
            check_if_no_bounds := True, curr_mu := 1 / 20, curr_tau := 99 / 100,
            linesearch_resets := 1\<rparr>) \<and>
   curr_mu default_state \<noteq> 1 / 20 \<and>
   Suc (linesearch_resets default_state) = 1"
proof -
  have run: "UpdateBarrierParameter (an_iterate 0) default_state =
     Inr (default_state\<lparr>init_dual_inf := 1, init_primal_inf := 1, refs_vals := [0],
            check_if_no_bounds := True, curr_mu := 1 / 20, curr_tau := 99 / 100,
            linesearch_resets := 1\<rparr>)"
    by (simp add: default_state_eq eval_update eval_norm)
  have pre: "curr_mu default_state \<noteq> 1 / 20" "\<not> no_bounds default_state"
    by (simp_all add: default_state_eq)
  from mu_tau_change_resets_linesearch [OF run] pre
  have "Suc (linesearch_resets default_state) = 1" by simp
  with run pre show ?thesis by simp
qed

text \<open>
  The first call of a problem without bounds changes \<open>mu\<close> from 0 to \<open>mu_min\<close> and \<open>tau\<close>
  from 0 to \<open>tau_min\<close>; the line search is not reset.
\<close>

theorem no_bounds_path_without_reset_counterexample:
  "UpdateBarrierParameter unbounded_iterate default_state =
     Inr (default_state\<lparr>no_bounds := True, curr_mu := 1 / 10 ^ 9, curr_tau := 99 / 100,
            check_if_no_bounds := True\<rparr>) \<and>
   curr_mu default_state \<noteq> 1 / 10 ^ 9 \<and> curr_tau default_state \<noteq> 99 / 100 \<and>
   linesearch_resets
     (default_state\<lparr>no_bounds := True, curr_mu := 1 / 10 ^ 9, curr_tau := 99 / 100,
        check_if_no_bounds := True\<rparr>) = linesearch_resets default_state"
  by (simp add: default_state_eq unbounded_iterate_def eval_update an_iterate_def)

section \<open>Problems without bounds\<close>

lemma UpdateBarrierParameter_latched:
  assumes "check_if_no_bounds s" and "no_bounds s"
  shows "UpdateBarrierParameter it s = Inr s"
  using assms by (simp add: UpdateBarrierParameter_def check_no_bounds_def)

lemma UpdateBarrierParameter_calls_latched:
  assumes "check_if_no_bounds s" and "no_bounds s"
  shows "UpdateBarrierParameter_calls its s = Inr s"
  using assms by (induction its) (simp_all add: UpdateBarrierParameter_latched)

text \<open>
  C5. If the four bound-multiplier vectors have dimension 0 at the first call, that call
  sets \<open>mu = mu_min\<close> and \<open>tau = tau_min\<close> and latches \<open>no_bounds_\<close>; every later call,
  whatever it reads, returns at once and leaves the whole state as it is. After the
  first call and any number of later ones the state is the one the first call left:
  \<open>mu = mu_min\<close>, \<open>tau = tau_min\<close>, and the mode, the reference history, the filter, the
  safeguard baselines and the line search untouched.
\<close>

theorem no_bounds_fast_path_latched:
  assumes "\<not> check_if_no_bounds s" and "n_bounds it = 0"
  shows "UpdateBarrierParameter_calls (it # its) s =
           Inr (s\<lparr>no_bounds := True, curr_mu := mu_min s, curr_tau := tau_min s,
                   check_if_no_bounds := True\<rparr>)"
proof -
  let ?s1 = "s\<lparr>no_bounds := True, curr_mu := mu_min s, curr_tau := tau_min s,
                check_if_no_bounds := True\<rparr>"
  from assms have "UpdateBarrierParameter it s = Inr ?s1"
    by (simp add: UpdateBarrierParameter_def check_no_bounds_def n_bounds_def Let_def)
  moreover have "UpdateBarrierParameter_calls its ?s1 = Inr ?s1"
    by (rule UpdateBarrierParameter_calls_latched) simp_all
  ultimately show ?thesis by simp
qed

theorem no_bounds_fast_path_latched_witness:
  "\<not> check_if_no_bounds default_state \<and> n_bounds unbounded_iterate = 0 \<and>
   UpdateBarrierParameter_calls [unbounded_iterate, an_iterate 3, an_iterate 7]
       default_state =
     Inr (default_state\<lparr>no_bounds := True, curr_mu := 1 / 10 ^ 9, curr_tau := 99 / 100,
            check_if_no_bounds := True\<rparr>)"
proof -
  have pre: "\<not> check_if_no_bounds default_state" "n_bounds unbounded_iterate = 0"
    by (simp_all add: default_state_eq unbounded_iterate_def n_bounds_def an_iterate_def)
  from no_bounds_fast_path_latched [OF pre, of "[an_iterate 3, an_iterate 7]"] pre
  show ?thesis by (simp add: default_state_eq)
qed

section \<open>The fixed barrier parameter\<close>

text \<open>
  C6, as the code has it. When the safeguard returns and the cap is defined (selector 1
  with a non-empty history, where \<open>max_ref\<close> is \<open>max_ref_val()\<close>, or selector 2, where it
  is \<open>1e20\<close>), \<open>NewFixedMu\<close> returns the raw proposal (the fixed-mode oracle's value if
  that oracle is present, else the average complementarity) clamped in this order:
  below by the safeguard, above by \<open>0.1 * max_ref\<close>, below by \<open>mu_min\<close>, above by
  \<open>mu_max\<close>.
\<close>

theorem NewFixedMu_clamp_order:
  assumes "lower_mu_safeguard it s = Inr (safeguard, s1)"
    and "(adaptive_globalization s = 1 \<and> max_ref_val s = Inr max_ref) \<or>
         (adaptive_globalization s = 2 \<and> max_ref = 10 ^ 20)"
  shows "NewFixedMu it s =
           Inr (min (max (min (max (case fix_mu_oracle_CalculateMu it of
                                      Some m \<Rightarrow> m | None \<Rightarrow> curr_avrg_compl it)
                                   safeguard)
                              (0.1 * max_ref))
                         (mu_min s))
                    (mu_max s), s1)"
proof -
  note cfg = lower_mu_safeguard_config [OF assms(1)]
  from assms(2) show ?thesis
  proof
    assume "adaptive_globalization s = 1 \<and> max_ref_val s = Inr max_ref"
    with assms(1) cfg show ?thesis by (simp add: NewFixedMu_def Let_def)
  next
    assume "adaptive_globalization s = 2 \<and> max_ref = 10 ^ 20"
    with assms(1) cfg show ?thesis by (simp add: NewFixedMu_def Let_def)
  qed
qed

theorem NewFixedMu_clamp_order_witness:
  "lower_mu_safeguard (an_iterate 1) small_reference_state =
     Inr (0, small_reference_state) \<and>
   adaptive_globalization small_reference_state = 1 \<and>
   max_ref_val small_reference_state = Inr (1 / 1000) \<and>
   NewFixedMu (an_iterate 1) small_reference_state = Inr (1 / 100, small_reference_state)"
proof -
  have a: "lower_mu_safeguard (an_iterate 1) small_reference_state =
     Inr (0, small_reference_state)"
    by (simp add: small_reference_state_def small_reference_start_def eval_init
          eval_update eval_norm)
  have b: "adaptive_globalization small_reference_state = 1"
    "max_ref_val small_reference_state = Inr (1 / 1000)"
    "mu_min small_reference_state = 1 / 100" "mu_max small_reference_state = 10 ^ 10"
    by (simp_all add: small_reference_state_def small_reference_start_def eval_init
          eval_update)
  from b have c: "(adaptive_globalization small_reference_state = 1 \<and>
                   max_ref_val small_reference_state = Inr (1 / 1000)) \<or>
         (adaptive_globalization small_reference_state = 2 \<and> (1 / 1000 :: real) = 10 ^ 20)"
    by simp
  from NewFixedMu_clamp_order [OF a c] a b show ?thesis by (simp add: an_iterate_def)
qed

text \<open>
  With \<open>mu_min = 0.01\<close> and a single reference, a first call stores the reference
  0.001, so the cap \<open>0.1 * 0.001\<close> lies below \<open>mu_min\<close>. For the next iterate the raw
  proposal is 1 and the safeguard 0. The code returns \<open>mu_min = 0.01\<close>, the clamp below
  by \<open>mu_min\<close> coming after the cap, and the second call commits it; clamping below by
  the safeguard and \<open>mu_min\<close> first and above by the cap and \<open>mu_max\<close> afterwards gives
  the cap, 0.0001.
\<close>

theorem NewFixedMu_stated_order_counterexample:
  "UpdateBarrierParameter (an_iterate (1 / 1000)) small_reference_start =
     Inr small_reference_state \<and>
   NewFixedMu (an_iterate 1) small_reference_state = Inr (1 / 100, small_reference_state) \<and>
   lower_mu_safeguard (an_iterate 1) small_reference_state =
     Inr (0, small_reference_state) \<and>
   max_ref_val small_reference_state = Inr (1 / 1000) \<and>
   fix_mu_oracle_CalculateMu (an_iterate 1) = None \<and> curr_avrg_compl (an_iterate 1) = 1 \<and>
   NewFixedMu_in_stated_order 1 0 (0.1 * (1 / 1000))
     (mu_min small_reference_state) (mu_max small_reference_state) = 1 / 10000 \<and>
   UpdateBarrierParameter (an_iterate 1) small_reference_state =
     Inr (small_reference_state\<lparr>curr_mu := 1 / 100, FreeMuMode := False,
            info_string := ''F'', linesearch_resets := 2\<rparr>)"
  by (simp add: small_reference_state_def small_reference_start_def eval_init
        eval_update eval_norm NewFixedMu_in_stated_order_def)

section \<open>The averaged norms\<close>

text \<open>
  C7, as the code has it. Both functions divide the dual infeasibility by
  \<open>dim x + dim s\<close> without a guard (lines 469 and 503); only the divisions by
  \<open>dim y_c + dim y_d\<close> and by the number of bounds are guarded, and a norm over
  dimension 0 is then used as it is. So with at least one variable or slack
  \<open>curr_norm_pd_system\<close> returns the sum of the three averages, and
  \<open>lower_mu_safeguard\<close> returns whenever, in addition, no baseline is 0 and, under
  selector 1, the history is not empty.
\<close>

theorem averaged_norms_defined_with_variables:
  assumes "0 < dim_x it + dim_s it"
  shows "curr_norm_pd_system it =
           Inr (averaged_primal_inf it + averaged_dual_inf it + averaged_complementarity it) \<and>
         (init_dual_inf s \<noteq> 0 \<and> init_primal_inf s \<noteq> 0 \<and>
          (adaptive_globalization s = 1 \<longrightarrow> refs_vals s \<noteq> []) \<longrightarrow>
            (\<exists>v. lower_mu_safeguard it s =
                    Inr (v, s\<lparr>init_dual_inf := latched_dual_inf it s,
                               init_primal_inf := latched_primal_inf it s\<rparr>)))"
  using curr_norm_pd_system_defined [OF assms] lower_mu_safeguard_defined [OF assms]
  by blast

theorem averaged_norms_defined_with_variables_witness:
  "0 < dim_x (an_iterate 5) + dim_s (an_iterate 5) \<and>
   curr_norm_pd_system (an_iterate 5) = Inr 5 \<and>
   init_dual_inf safeguarded_filter_state \<noteq> 0 \<and>
   init_primal_inf safeguarded_filter_state \<noteq> 0 \<and>
   adaptive_globalization safeguarded_filter_state \<noteq> 1 \<and>
   lower_mu_safeguard (an_iterate 5) safeguarded_filter_state =
     Inr (1, safeguarded_filter_state\<lparr>init_dual_inf := 5, init_primal_inf := 1\<rparr>)"
proof -
  have pre: "0 < dim_x (an_iterate 5) + dim_s (an_iterate 5)"
    by (simp add: an_iterate_def)
  have cfg: "init_dual_inf safeguarded_filter_state \<noteq> 0"
    "init_primal_inf safeguarded_filter_state \<noteq> 0"
    "adaptive_globalization safeguarded_filter_state \<noteq> 1"
    by (simp_all add: safeguarded_filter_state_def eval_init)
  have avg: "averaged_primal_inf (an_iterate 5) = 0" "averaged_dual_inf (an_iterate 5) = 5"
    "averaged_complementarity (an_iterate 5) = 0"
    by (simp_all add: averaged_primal_inf_def averaged_dual_inf_def
          averaged_complementarity_def n_bounds_def an_iterate_def)
  have run: "lower_mu_safeguard (an_iterate 5) safeguarded_filter_state =
     Inr (1, safeguarded_filter_state\<lparr>init_dual_inf := 5, init_primal_inf := 1\<rparr>)"
    by (simp add: safeguarded_filter_state_def eval_init eval_update eval_norm)
  from averaged_norms_defined_with_variables [OF pre, of safeguarded_filter_state] avg
  have "curr_norm_pd_system (an_iterate 5) = Inr 5" by simp
  with pre cfg run show ?thesis by simp
qed

text \<open>
  Without variables and slacks both functions divide by zero, whatever the state.
\<close>

lemma averaged_norms_undefined_without_variables:
  assumes "dim_x it + dim_s it = 0"
  shows "curr_norm_pd_system it = Inl DivisionByZero"
    and "lower_mu_safeguard it s = Inl DivisionByZero"
  using assms by (simp_all add: curr_norm_pd_system_def lower_mu_safeguard_def Number_div_def)

theorem averaged_dual_inf_divides_by_zero_counterexample:
  "dim_x no_variables_iterate + dim_s no_variables_iterate = 0 \<and>
   curr_norm_pd_system no_variables_iterate = Inl DivisionByZero \<and>
   lower_mu_safeguard no_variables_iterate default_state = Inl DivisionByZero"
  by (simp add: no_variables_iterate_def eval_norm lower_mu_safeguard_def)

section \<open>The options\<close>

text \<open>
  When \<open>InitializeImpl\<close> returns true, every supplied value of the eleven checked
  options lies in its range and both oracles initialized; the selector is whatever
  integer was supplied.
\<close>

lemma numeric_option_Inr:
  assumes "numeric_option options name in_range dflt = Inr x"
  shows "(\<forall>v. GetNumericValue options name = Some v \<longrightarrow> in_range v \<and> x = v) \<and>
         (GetNumericValue options name = None \<longrightarrow> x = dflt)"
  using assms by (auto simp: numeric_option_def split: option.splits if_splits)

lemma InitializeImpl_success:
  assumes "InitializeImpl options eps_tol free_init fix_init s = Inr (True, s')"
  shows "(\<forall>v. GetNumericValue options ''mu_max'' = Some v \<longrightarrow> 0 < v) \<and>
         (\<forall>v. GetNumericValue options ''mu_min'' = Some v \<longrightarrow> 0 < v \<and> v < mu_max s') \<and>
         (\<forall>v. GetNumericValue options ''tau_min'' = Some v \<longrightarrow> 0 < v \<and> v < 1) \<and>
         (\<forall>v. GetNumericValue options ''tau_max'' = Some v \<longrightarrow> 0 < v \<and> v \<le> 1) \<and>
         (\<forall>v. GetNumericValue options ''mu_safeguard_exp'' = Some v \<longrightarrow> 0 \<le> v) \<and>
         (\<forall>v. GetNumericValue options ''mu_safeguard_factor'' = Some v \<longrightarrow> 0 \<le> v) \<and>
         (\<forall>v. GetNumericValue options ''nonmonotone_mu_refs_redfact'' = Some v \<longrightarrow>
                0 < v \<and> v < 1) \<and>
         (\<forall>i. GetIntegerValue options ''nonmonotone_mu_max_refs'' = Some i \<longrightarrow> 0 \<le> i) \<and>
         (\<forall>v. GetNumericValue options ''kappa_epsilon'' = Some v \<longrightarrow> 0 < v) \<and>
         (\<forall>v. GetNumericValue options ''kappa_mu'' = Some v \<longrightarrow> 0 < v \<and> v < 1) \<and>
         (\<forall>v. GetNumericValue options ''theta_mu'' = Some v \<longrightarrow> 1 < v \<and> v < 2) \<and>
         free_init \<and> fix_init \<noteq> Some False \<and>
         (\<forall>i. GetIntegerValue options ''adaptive_globalization'' = Some i \<longrightarrow>
                adaptive_globalization s' = i)"
proof -
  from assms obtain v1 v2 v3 v4 v5 v6 v7 i8 v9 v10 v11 where
    o: "numeric_option options ''mu_max'' (\<lambda>v. v > 0) (10 ^ 10) = Inr v1"
       "numeric_option options ''mu_min'' (\<lambda>v. v > 0 \<and> v < v1) (0.1 * eps_tol) = Inr v2"
       "numeric_option options ''tau_min'' (\<lambda>v. v > 0 \<and> v < 1) (99 / 100) = Inr v3"
       "numeric_option options ''tau_max'' (\<lambda>v. v > 0 \<and> v \<le> 1) v3 = Inr v4"
       "numeric_option options ''mu_safeguard_exp'' (\<lambda>v. v \<ge> 0) 0 = Inr v5"
       "numeric_option options ''mu_safeguard_factor'' (\<lambda>v. v \<ge> 0) 0 = Inr v6"
       "numeric_option options ''nonmonotone_mu_refs_redfact'' (\<lambda>v. v > 0 \<and> v < 1)
              (9999 / 10000) = Inr v7"
       "numeric_option options ''kappa_epsilon'' (\<lambda>v. v > 0) 10 = Inr v9"
       "numeric_option options ''kappa_mu'' (\<lambda>v. v > 0 \<and> v < 1) (2 / 10) = Inr v10"
       "numeric_option options ''theta_mu'' (\<lambda>v. v > 1 \<and> v < 2) (15 / 10) = Inr v11"
    and i: "(case GetIntegerValue options ''nonmonotone_mu_max_refs'' of
              Some ivalue \<Rightarrow>
                if ivalue \<ge> 0 then Inr ivalue
                else Inl (OPTION_OUT_OF_RANGE ''nonmonotone_mu_max_refs'')
            | None \<Rightarrow> Inr 4) = Inr i8"
    and f: "free_init" "fix_init \<noteq> Some False"
    and s': "mu_max s' = v1" "adaptive_globalization s' =
           (case GetIntegerValue options ''adaptive_globalization'' of
              Some ivalue \<Rightarrow> ivalue | None \<Rightarrow> 1)"
    by (auto simp: InitializeImpl_def Let_def bindE_Inr_iff split: if_splits)
  from i have "\<forall>i. GetIntegerValue options ''nonmonotone_mu_max_refs'' = Some i \<longrightarrow> 0 \<le> i"
    by (auto split: option.splits if_splits)
  with o [THEN numeric_option_Inr] f s' show ?thesis by simp
qed

text \<open>
  Values outside the range of a checked option raise the exception that names it.
\<close>

lemma out_of_range_options_raise:
  "InitializeImpl (options_of [(''mu_max'', 0)] []) (1 / 10 ^ 8) True None fresh_object =
     Inl (OPTION_OUT_OF_RANGE ''mu_max'')"
  "InitializeImpl (options_of [(''mu_max'', 100), (''mu_min'', 100)] []) (1 / 10 ^ 8) True None
     fresh_object = Inl (OPTION_OUT_OF_RANGE ''mu_min'')"
  "InitializeImpl (options_of [(''tau_min'', 1)] []) (1 / 10 ^ 8) True None fresh_object =
     Inl (OPTION_OUT_OF_RANGE ''tau_min'')"
  "InitializeImpl (options_of [(''tau_max'', 0)] []) (1 / 10 ^ 8) True None fresh_object =
     Inl (OPTION_OUT_OF_RANGE ''tau_max'')"
  "InitializeImpl (options_of [(''nonmonotone_mu_refs_redfact'', 1)] []) (1 / 10 ^ 8) True
     None fresh_object = Inl (OPTION_OUT_OF_RANGE ''nonmonotone_mu_refs_redfact'')"
  "InitializeImpl (options_of [] [(''nonmonotone_mu_max_refs'', - 1)]) (1 / 10 ^ 8) True None
     fresh_object = Inl (OPTION_OUT_OF_RANGE ''nonmonotone_mu_max_refs'')"
  "InitializeImpl (options_of [(''kappa_epsilon'', 0)] []) (1 / 10 ^ 8) True None
     fresh_object = Inl (OPTION_OUT_OF_RANGE ''kappa_epsilon'')"
  "InitializeImpl (options_of [(''kappa_mu'', 1)] []) (1 / 10 ^ 8) True None fresh_object =
     Inl (OPTION_OUT_OF_RANGE ''kappa_mu'')"
  "InitializeImpl (options_of [(''theta_mu'', 2)] []) (1 / 10 ^ 8) True None fresh_object =
     Inl (OPTION_OUT_OF_RANGE ''theta_mu'')"
  by (simp_all add: eval_init)

text \<open>
  C8: every supplied option value outside its declared range, a selector
  \<open>adaptive_globalization\<close> outside 1 and 2 included, makes initialization fail with
  \<open>OPTION_OUT_OF_RANGE\<close>. The code does not do this for the selector: lines 127 to 132
  store the supplied integer without a range check, and with the value 3
  \<open>InitializeImpl\<close> returns true with the selector 3 in place.
\<close>

theorem adaptive_globalization_not_validated:
  "InitializeImpl (options_of [] [(''adaptive_globalization'', 3)]) (1 / 10 ^ 8) True None
     fresh_object =
   Inr (True, default_state\<lparr>adaptive_globalization := 3\<rparr>)"
  by (simp add: default_state_eq eval_init)

section \<open>The reference history\<close>

text \<open>
  With \<open>num_refs_max \<ge> 1\<close> the history is a bounded queue: after any sequence of
  accepted points, starting from a history within the bound, it holds the last
  \<open>num_refs_max\<close> values in order.
\<close>

lemma last_n_append: "last_n n (last_n n xs @ ys) = last_n n (xs @ ys)"
  by (cases "length xs \<le> n") (simp_all add: last_n_def add.commute)

lemma last_n_snoc:
  assumes "1 \<le> n" and "length rs \<le> n"
  shows "(if n \<le> length rs then tl rs else rs) @ [e] = last_n n (rs @ [e])"
proof (cases "n \<le> length rs")
  case True
  with assms have "length rs = n" "rs \<noteq> []" by auto
  then show ?thesis by (cases rs) (simp_all add: last_n_def)
next
  case False
  then show ?thesis by (simp add: last_n_def)
qed

lemma length_last_n: "length (last_n n xs) \<le> n"
  by (simp add: last_n_def)

lemma Remember_selector_1:
  assumes "adaptive_globalization s = 1" and "curr_norm_pd_system it = Inr e"
    and "1 \<le> num_refs_max s" and "int (length (refs_vals s)) \<le> num_refs_max s"
  shows "RememberCurrentPointAsAccepted it s =
           Inr (s\<lparr>refs_vals := last_n (nat (num_refs_max s)) (refs_vals s @ [e])\<rparr>)"
proof -
  let ?n = "nat (num_refs_max s)"
  from assms(3,4) have n: "1 \<le> ?n" "length (refs_vals s) \<le> ?n" by simp_all
  have full: "num_refs_max s \<le> int (length (refs_vals s)) \<longleftrightarrow> ?n \<le> length (refs_vals s)"
    using assms(3) by linarith
  show ?thesis
  proof (cases "?n \<le> length (refs_vals s)")
    case True
    with n have "refs_vals s \<noteq> []" by auto
    then obtain r rs where rs: "refs_vals s = r # rs" by (cases "refs_vals s") auto
    with True full assms(1,2) last_n_snoc [OF n, of e] show ?thesis
      by (simp add: RememberCurrentPointAsAccepted_def pop_front_def Let_def)
  next
    case False
    with full assms(1,2) last_n_snoc [OF n, of e] show ?thesis
      by (simp add: RememberCurrentPointAsAccepted_def Let_def)
  qed
qed

lemma Remember_calls_fifo:
  assumes "adaptive_globalization s = 1" and "1 \<le> num_refs_max s"
    and "int (length (refs_vals s)) \<le> num_refs_max s"
    and "list_all2 (\<lambda>it e. curr_norm_pd_system it = Inr e) its es"
  shows "RememberCurrentPointAsAccepted_calls its s =
           Inr (s\<lparr>refs_vals := last_n (nat (num_refs_max s)) (refs_vals s @ es)\<rparr>)"
  using assms
proof (induction its arbitrary: s es)
  case Nil
  then show ?case by (simp add: last_n_def)
next
  case (Cons it its)
  from Cons.prems(4) obtain e es' where es: "es = e # es'"
    and e: "curr_norm_pd_system it = Inr e"
    and rest: "list_all2 (\<lambda>it e. curr_norm_pd_system it = Inr e) its es'"
    by (auto simp: list_all2_Cons1)
  let ?n = "nat (num_refs_max s)"
  let ?s1 = "s\<lparr>refs_vals := last_n ?n (refs_vals s @ [e])\<rparr>"
  have step: "RememberCurrentPointAsAccepted it s = Inr ?s1"
    by (rule Remember_selector_1 [OF Cons.prems(1) e Cons.prems(2,3)])
  have "int (length (refs_vals ?s1)) \<le> num_refs_max ?s1"
    using length_last_n [of ?n "refs_vals s @ [e]"] Cons.prems(2) by simp
  with Cons.IH [of ?s1 es'] Cons.prems(1,2) rest
  have "RememberCurrentPointAsAccepted_calls its ?s1 =
          Inr (?s1\<lparr>refs_vals := last_n ?n (refs_vals ?s1 @ es')\<rparr>)" by simp
  with step es show ?case by (simp add: last_n_append)
qed

lemma Remember_calls_bounded_fifo:
  assumes "adaptive_globalization s = 1" and "1 \<le> num_refs_max s" and "refs_vals s = []"
    and "list_all2 (\<lambda>it e. curr_norm_pd_system it = Inr e) its es"
  shows "\<exists>s'. RememberCurrentPointAsAccepted_calls its s = Inr s' \<and>
              int (length (refs_vals s')) \<le> num_refs_max s \<and>
              refs_vals s' = drop (length es - nat (num_refs_max s)) es"
proof -
  from assms have "RememberCurrentPointAsAccepted_calls its s =
           Inr (s\<lparr>refs_vals := last_n (nat (num_refs_max s)) (refs_vals s @ es)\<rparr>)"
    by (intro Remember_calls_fifo) simp_all
  moreover have "int (length (last_n (nat (num_refs_max s)) es)) \<le> num_refs_max s"
    using length_last_n [of "nat (num_refs_max s)" es] assms(2) by linarith
  ultimately show ?thesis using assms(3) by (simp add: last_n_def)
qed

text \<open>
  C9: for every configured \<open>num_refs_max \<ge> 0\<close> the history never grows beyond
  \<open>num_refs_max\<close> values and evicts the oldest first. The code does not do this for
  \<open>num_refs_max = 0\<close>, a value line 112 accepts. With an empty history
  \<open>RememberCurrentPointAsAccepted\<close> finds \<open>0 >= 0\<close> and calls \<open>pop_front()\<close> on the
  empty list; so does the first \<open>UpdateBarrierParameter\<close> when \<open>mu_never_fix\<close> is set,
  and when it is not, the first call finds the progress insufficient and \<open>max_ref_val\<close>
  dereferences \<open>begin()\<close> of the empty list.
\<close>

theorem zero_capacity_history_pops_empty_list:
  "RememberCurrentPointAsAccepted (an_iterate 1) (default_state\<lparr>num_refs_max := 0\<rparr>) =
     Inl PopFrontOnEmptyList \<and>
   initialized (options_of [] [(''nonmonotone_mu_max_refs'', 0), (''mu_never_fix'', 1)]) =
     default_state\<lparr>num_refs_max := 0, mu_never_fix := True\<rparr> \<and>
   UpdateBarrierParameter (an_iterate 1)
     (default_state\<lparr>num_refs_max := 0, mu_never_fix := True\<rparr>) = Inl PopFrontOnEmptyList \<and>
   initialized (options_of [] [(''nonmonotone_mu_max_refs'', 0)]) =
     default_state\<lparr>num_refs_max := 0\<rparr> \<and>
   UpdateBarrierParameter (an_iterate 1) (default_state\<lparr>num_refs_max := 0\<rparr>) =
     Inl DereferenceOfEnd"
  by (simp add: default_state_eq eval_init eval_update eval_norm)

section \<open>The safeguard baselines\<close>

text \<open>
  Once both baselines are set, no call of \<open>UpdateBarrierParameter\<close> changes them.
\<close>

lemma UpdateBarrierParameter_keeps_baselines:
  assumes "UpdateBarrierParameter it s = Inr s'"
    and "0 \<le> init_dual_inf s" and "0 \<le> init_primal_inf s"
  shows "init_dual_inf s' = init_dual_inf s \<and> init_primal_inf s' = init_primal_inf s"
proof -
  from assms(2,3) have "latched_dual_inf it s = init_dual_inf s"
    "latched_primal_inf it s = init_primal_inf s"
    by (simp_all add: latched_dual_inf_def latched_primal_inf_def)
  with UpdateBarrierParameter_summary [OF assms(1)] show ?thesis by metis
qed

text \<open>
  C10. The first computation of \<open>lower_mu_safeguard\<close> that returns, on an object whose
  baselines are unset (negative, as \<open>InitializeImpl\<close> leaves them), sets
  \<open>init_dual_inf\<close> and \<open>init_primal_inf\<close> to the maximum of 1 and the averaged
  infeasibility it observed. A later computation, on any state that carries these
  baselines and with any readings, leaves both as they are.
\<close>

theorem safeguard_baselines_latched_once:
  assumes "init_dual_inf s < 0" and "init_primal_inf s < 0"
    and "lower_mu_safeguard it s = Inr (v, s1)"
    and "init_dual_inf t = init_dual_inf s1" and "init_primal_inf t = init_primal_inf s1"
    and "lower_mu_safeguard it' t = Inr (v', t1)"
  shows "init_dual_inf s1 = max 1 (averaged_dual_inf it) \<and>
         init_primal_inf s1 = max 1 (averaged_primal_inf it) \<and>
         init_dual_inf t1 = init_dual_inf s1 \<and> init_primal_inf t1 = init_primal_inf s1"
proof -
  from lower_mu_safeguard_state [OF assms(3)] assms(1,2)
  have s1: "init_dual_inf s1 = max 1 (averaged_dual_inf it)"
    "init_primal_inf s1 = max 1 (averaged_primal_inf it)"
    by (simp_all add: latched_dual_inf_def latched_primal_inf_def)
  with assms(4,5) have "\<not> init_dual_inf t < 0" "\<not> init_primal_inf t < 0" by simp_all
  with lower_mu_safeguard_state [OF assms(6)] have "t1 = t"
    by (simp add: latched_dual_inf_def latched_primal_inf_def)
  with s1 assms(4,5) show ?thesis by simp
qed

text \<open>
  With a safeguard factor of 1: the first computation observes a dual infeasibility of 5
  and latches 5 and 1; the second observes 7 and leaves them.
\<close>

theorem safeguard_baselines_latched_once_witness:
  "init_dual_inf safeguarded_filter_state < 0 \<and>
   init_primal_inf safeguarded_filter_state < 0 \<and>
   lower_mu_safeguard (an_iterate 5) safeguarded_filter_state =
     Inr (1, safeguarded_filter_state\<lparr>init_dual_inf := 5, init_primal_inf := 1\<rparr>) \<and>
   lower_mu_safeguard (an_iterate 7)
       (safeguarded_filter_state\<lparr>init_dual_inf := 5, init_primal_inf := 1\<rparr>) =
     Inr (7 / 5, safeguarded_filter_state\<lparr>init_dual_inf := 5, init_primal_inf := 1\<rparr>) \<and>
   max 1 (averaged_dual_inf (an_iterate 5)) = 5 \<and>
   max 1 (averaged_primal_inf (an_iterate 5)) = 1"
proof -
  let ?s1 = "safeguarded_filter_state\<lparr>init_dual_inf := 5, init_primal_inf := 1\<rparr>"
  have unset: "init_dual_inf safeguarded_filter_state < 0"
    "init_primal_inf safeguarded_filter_state < 0"
    by (simp_all add: safeguarded_filter_state_def eval_init)
  have first: "lower_mu_safeguard (an_iterate 5) safeguarded_filter_state = Inr (1, ?s1)"
    by (simp add: safeguarded_filter_state_def eval_init eval_update eval_norm)
  have later: "lower_mu_safeguard (an_iterate 7) ?s1 = Inr (7 / 5, ?s1)"
    by (simp add: safeguarded_filter_state_def eval_init eval_update eval_norm)
  from safeguard_baselines_latched_once [OF unset first refl refl later]
  have "max 1 (averaged_dual_inf (an_iterate 5)) = 5"
    "max 1 (averaged_primal_inf (an_iterate 5)) = 1" by simp_all
  with unset first later show ?thesis by simp
qed

end
